theory Spec2Isabelle
  imports Complex_Main
begin

section \<open>The drawing canvas component (AdvancedDrawingCanvas)\<close>

text \<open>
  The component is a React function component. Its state cells (\<open>useState\<close>) are the
  fields of the record \<open>session\<close>; its callbacks are functions from the session to the
  next session and the list of values handed to the host (\<open>onDrawingChange\<close>,
  \<open>onImageData\<close>). A callback reads the state of the render it was created in and its
  \<open>setState\<close> calls take effect together afterwards, so inside one callback every read
  is of the old session and every write goes to the new one. Events are processed one at
  a time, each one seeing the state committed by the one before.

  JavaScript numbers that the component receives or configures (event coordinates,
  element sizes and positions, widths, opacities) are modelled as reals: rounding and
  overflow are outside the model. The one division of the component, in the
  coordinate mapper, can divide by a displayed size of zero; its result, and with it
  every coordinate of a point, is a \<open>number\<close>, which is a real, an infinity or \<open>NaN\<close>.
  The proofs use arithmetic only to evaluate concrete inputs and to drop a factor 1.
  \<open>e.preventDefault()\<close> changes nothing of the component and is left out.
\<close>

subsection \<open>Data model\<close>

datatype tool = Pen | Brush | Marker | Eraser

text \<open>
  A JavaScript number that may be the result of a division: finite, or one of the
  three values IEEE arithmetic has besides.
\<close>

datatype number = Finite real | PosInfinity | NegInfinity | NaN

definition is_finite :: "number \<Rightarrow> bool" where
  "is_finite n = (case n of Finite r \<Rightarrow> True | _ \<Rightarrow> False)"

text \<open>
  \<open>a / b\<close> for finite \<open>a\<close> and \<open>b\<close>: a zero divisor gives an infinity with the sign of
  the dividend, and \<open>0 / 0\<close> is \<open>NaN\<close>. The divisors of the component are displayed
  sizes, whose zero is the positive one.
\<close>

definition js_div :: "real \<Rightarrow> real \<Rightarrow> number" where
  "js_div a b =
     (if b \<noteq> 0 then Finite (a / b)
      else if a > 0 then PosInfinity
      else if a < 0 then NegInfinity
      else NaN)"

text \<open>
  \<open>a * n\<close> for a finite \<open>a\<close>: an infinity keeps or flips its sign with the sign of \<open>a\<close>,
  zero times an infinity is \<open>NaN\<close>, and \<open>NaN\<close> stays \<open>NaN\<close>.
\<close>

definition js_mul :: "real \<Rightarrow> number \<Rightarrow> number" where
  "js_mul a n =
     (case n of
        Finite b \<Rightarrow> Finite (a * b)
      | PosInfinity \<Rightarrow> (if a > 0 then PosInfinity else if a < 0 then NegInfinity else NaN)
      | NegInfinity \<Rightarrow> (if a > 0 then NegInfinity else if a < 0 then PosInfinity else NaN)
      | NaN \<Rightarrow> NaN)"

text \<open>\<open>interface Point { x; y }\<close>; the fields are named \<open>px\<close>, \<open>py\<close> here.\<close>

record point =
  px :: number
  py :: number

record stroke =
  points :: "point list"
  color :: string
  width :: real
  tool :: tool

subsection \<open>The canvas element and its 2D context\<close>

text \<open>
  The browser's canvas is not code of the component. It is modelled as far as the
  component uses it. The context holds the drawing attributes the component assigns,
  the current path, and the output bitmap. The bitmap is kept as the list of paint
  operations that determine its pixels: a \<open>fillRect\<close> records the rectangle with the
  fill style, opacity and blend rule in force, a \<open>stroke()\<close> records the path with the
  stroke attributes in force. The path is the list of \<open>moveTo\<close> and \<open>lineTo\<close> calls
  with their arguments, as they were made: the browser ignores a call with a
  non-finite argument, and which calls those are can be read off the list. A fill of
  the whole surface with an opaque colour at
  full opacity under \<open>source-over\<close> overwrites every pixel, so the operations before it
  no longer matter and are dropped. Two bitmaps with the same size and the same
  operations have the same pixels.
\<close>

datatype path_cmd = MoveTo number number | LineTo number number

record painted =
  p_strokeStyle :: string
  p_lineWidth :: real
  p_lineCap :: string
  p_lineJoin :: string
  p_globalAlpha :: real
  p_composite :: string
  p_path :: "path_cmd list"

datatype paint =
  Fill string real string real real real real
  | Stroked painted

record context2d =
  fillStyle :: string
  strokeStyle :: string
  lineWidth :: real
  lineCap :: string
  lineJoin :: string
  globalAlpha :: real
  globalCompositeOperation :: string
  path :: "path_cmd list"
  bitmap :: "paint list"

text \<open>
  The element: its \<open>width\<close> and \<open>height\<close> attributes (the backing size), the rectangle
  \<open>getBoundingClientRect()\<close> reports (the displayed position and size), and what
  \<open>getContext('2d')\<close> returns (\<open>None\<close> for \<open>null\<close>).
\<close>

record canvas =
  cv_width :: real
  cv_height :: real
  rect_left :: real
  rect_top :: real
  rect_width :: real
  rect_height :: real
  ctx2d :: "context2d option"

text \<open>The encoded snapshot \<open>canvas.toDataURL('image/png')\<close>: size and pixel content.\<close>

datatype image = PNG real real "paint list"

text \<open>A colour of the form \<open>#RRGGBB\<close> has no alpha channel.\<close>

definition opaque_colour :: "string \<Rightarrow> bool" where
  "opaque_colour s = (case s of [] \<Rightarrow> False | c # cs \<Rightarrow> c = CHR ''#'' \<and> length cs = 6)"

definition ctx_fillRect ::
  "canvas \<Rightarrow> context2d \<Rightarrow> real \<Rightarrow> real \<Rightarrow> real \<Rightarrow> real \<Rightarrow> context2d" where
  "ctx_fillRect cv ctx rx ry rw rh =
     (let op = Fill (fillStyle ctx) (globalAlpha ctx) (globalCompositeOperation ctx) rx ry rw rh
      in if rx = 0 \<and> ry = 0 \<and> rw = cv_width cv \<and> rh = cv_height cv
            \<and> opaque_colour (fillStyle ctx) \<and> globalAlpha ctx = 1
            \<and> globalCompositeOperation ctx = ''source-over''
         then ctx\<lparr>bitmap := [op]\<rparr>
         else ctx\<lparr>bitmap := bitmap ctx @ [op]\<rparr>)"

definition ctx_beginPath :: "context2d \<Rightarrow> context2d" where
  "ctx_beginPath ctx = ctx\<lparr>path := []\<rparr>"

definition ctx_moveTo :: "context2d \<Rightarrow> number \<Rightarrow> number \<Rightarrow> context2d" where
  "ctx_moveTo ctx a b = ctx\<lparr>path := path ctx @ [MoveTo a b]\<rparr>"

definition ctx_lineTo :: "context2d \<Rightarrow> number \<Rightarrow> number \<Rightarrow> context2d" where
  "ctx_lineTo ctx a b = ctx\<lparr>path := path ctx @ [LineTo a b]\<rparr>"

definition ctx_stroke :: "context2d \<Rightarrow> context2d" where
  "ctx_stroke ctx =
     ctx\<lparr>bitmap := bitmap ctx @
       [Stroked \<lparr>p_strokeStyle = strokeStyle ctx, p_lineWidth = lineWidth ctx,
                 p_lineCap = lineCap ctx, p_lineJoin = lineJoin ctx,
                 p_globalAlpha = globalAlpha ctx,
                 p_composite = globalCompositeOperation ctx,
                 p_path = path ctx\<rparr>]\<rparr>"

definition toDataURL :: "canvas \<Rightarrow> image" where
  "toDataURL cv =
     PNG (cv_width cv) (cv_height cv) (case ctx2d cv of None \<Rightarrow> [] | Some ctx \<Rightarrow> bitmap ctx)"

text \<open>A context as \<open>getContext('2d')\<close> first returns it: the defaults of the Canvas API.\<close>

definition fresh_context :: context2d where
  "fresh_context =
     \<lparr>fillStyle = ''#000000'', strokeStyle = ''#000000'', lineWidth = 1,
      lineCap = ''butt'', lineJoin = ''miter'', globalAlpha = 1,
      globalCompositeOperation = ''source-over'', path = [], bitmap = []\<rparr>"

subsection \<open>Events, errors and outputs\<close>

text \<open>
  A mouse event and a touch point both carry \<open>clientX\<close> and \<open>clientY\<close>; a touch event
  carries the list \<open>touches\<close>.
\<close>

record coords =
  clientX :: real
  clientY :: real

type_synonym mouse_event = coords

record touch_event =
  touches :: "coords list"

text \<open>Reading a property of \<open>undefined\<close> throws a \<open>TypeError\<close>.\<close>

datatype error = TypeError

text \<open>
  What the host receives: a call of \<open>onDrawingChange\<close>, a call of \<open>onImageData\<close>, or
  an exception that left an event handler.
\<close>

datatype host_call = DrawingChange bool | ImageData image | Uncaught error

subsection \<open>Component state\<close>

record session =
  canvasRef :: "canvas option"
  isDrawing :: bool
  currentStroke :: "stroke option"
  strokes :: "stroke list"
  currentColor :: string
  currentWidth :: real
  currentTool :: tool
  hasContent :: bool

subsection \<open>Coordinate mapping\<close>

definition getMousePos :: "canvas option \<Rightarrow> mouse_event \<Rightarrow> point" where
  "getMousePos ref e =
     (case ref of
        None \<Rightarrow> \<lparr>px = Finite 0, py = Finite 0\<rparr>
      | Some cv \<Rightarrow>
          (let scaleX = js_div (cv_width cv) (rect_width cv);
               scaleY = js_div (cv_height cv) (rect_height cv)
           in \<lparr>px = js_mul (clientX e - rect_left cv) scaleX,
               py = js_mul (clientY e - rect_top cv) scaleY\<rparr>))"

text \<open>\<open>e.touches[0]\<close> is \<open>undefined\<close> for an empty list, and \<open>touch.clientX\<close> then throws.\<close>

definition getTouchPos :: "canvas option \<Rightarrow> touch_event \<Rightarrow> error + point" where
  "getTouchPos ref e =
     (case ref of
        None \<Rightarrow> Inr \<lparr>px = Finite 0, py = Finite 0\<rparr>
      | Some cv \<Rightarrow>
          (let scaleX = js_div (cv_width cv) (rect_width cv);
               scaleY = js_div (cv_height cv) (rect_height cv)
           in case touches e of
                [] \<Rightarrow> Inl TypeError
              | touch # _ \<Rightarrow>
                  Inr \<lparr>px = js_mul (clientX touch - rect_left cv) scaleX,
                       py = js_mul (clientY touch - rect_top cv) scaleY\<rparr>))"

subsection \<open>Stroke lifecycle\<close>

definition startDrawing :: "session \<Rightarrow> point \<Rightarrow> session" where
  "startDrawing s p =
     (let newStroke =
            \<lparr>points = [p],
             color = (if currentTool s = Eraser then ''#FFFFFF'' else currentColor s),
             width = (if currentTool s = Eraser then currentWidth s * 2 else currentWidth s),
             tool = currentTool s\<rparr>
      in s\<lparr>isDrawing := True, currentStroke := Some newStroke\<rparr>)"

definition draw :: "session \<Rightarrow> point \<Rightarrow> session" where
  "draw s p =
     (if \<not> isDrawing s \<or> currentStroke s = None then s
      else
        (let cur = the (currentStroke s);
             updatedStroke = cur\<lparr>points := points cur @ [p]\<rparr>
         in s\<lparr>currentStroke := Some updatedStroke\<rparr>))"

text \<open>
  \<open>stopDrawing\<close> reads \<open>strokes.length\<close> and \<open>currentStroke\<close> from the render it was
  created in: the log before the append and the stroke being completed.
\<close>

definition stopDrawing :: "session \<Rightarrow> session \<times> host_call list" where
  "stopDrawing s =
     (if \<not> isDrawing s \<or> currentStroke s = None then (s, [])
      else
        (let cur = the (currentStroke s);
             hasDrawnContent = (length (strokes s) > 0 \<or> length (points cur) > 1)
         in (s\<lparr>strokes := strokes s @ [cur], currentStroke := None,
               isDrawing := False, hasContent := hasDrawnContent\<rparr>,
             [DrawingChange hasDrawnContent])))"

subsection \<open>Rendering\<close>

text \<open>The body of \<open>strokes.forEach\<close>: one completed stroke.\<close>

definition drawLogStroke :: "context2d \<Rightarrow> stroke \<Rightarrow> context2d" where
  "drawLogStroke ctx0 st =
     (if length (points st) < 2 then ctx0
      else
        (let ctx1 = ctx_beginPath ctx0;
             ctx2 = ctx1\<lparr>strokeStyle := color st, lineWidth := width st,
                         lineCap := ''round'', lineJoin := ''round''\<rparr>;
             ctx3 = (if tool st = Brush then
                       ctx2\<lparr>globalAlpha := 0.7, lineWidth := width st * 1.5\<rparr>
                     else if tool st = Marker then
                       ctx2\<lparr>globalAlpha := 0.5, lineWidth := width st * 2\<rparr>
                     else if tool st = Eraser then
                       ctx2\<lparr>globalCompositeOperation := ''destination-out''\<rparr>
                     else
                       ctx2\<lparr>globalAlpha := 1.0, globalCompositeOperation := ''source-over''\<rparr>);
             ctx4 = ctx_moveTo ctx3 (px (points st ! 0)) (py (points st ! 0));
             ctx5 = fold (\<lambda>i c. ctx_lineTo c (px (points st ! i)) (py (points st ! i)))
                      [1 ..< length (points st)] ctx4;
             ctx6 = ctx_stroke ctx5
         in ctx6\<lparr>globalCompositeOperation := ''source-over'', globalAlpha := 1.0\<rparr>))"

text \<open>The block after the loop: the stroke in progress. It has no branch for the pen.\<close>

definition drawCurrentStroke :: "context2d \<Rightarrow> stroke option \<Rightarrow> context2d" where
  "drawCurrentStroke ctx0 cur =
     (case cur of
        None \<Rightarrow> ctx0
      | Some st \<Rightarrow>
          if \<not> length (points st) > 1 then ctx0
          else
            (let ctx1 = ctx_beginPath ctx0;
                 ctx2 = ctx1\<lparr>strokeStyle := color st, lineWidth := width st,
                             lineCap := ''round'', lineJoin := ''round''\<rparr>;
                 ctx3 = (if tool st = Brush then
                           ctx2\<lparr>globalAlpha := 0.7, lineWidth := width st * 1.5\<rparr>
                         else if tool st = Marker then
                           ctx2\<lparr>globalAlpha := 0.5, lineWidth := width st * 2\<rparr>
                         else if tool st = Eraser then
                           ctx2\<lparr>globalCompositeOperation := ''destination-out''\<rparr>
                         else ctx2);
                 ctx4 = ctx_moveTo ctx3 (px (points st ! 0)) (py (points st ! 0));
                 ctx5 = fold (\<lambda>i c. ctx_lineTo c (px (points st ! i)) (py (points st ! i)))
                          [1 ..< length (points st)] ctx4;
                 ctx6 = ctx_stroke ctx5
             in ctx6\<lparr>globalCompositeOperation := ''source-over'', globalAlpha := 1.0\<rparr>))"

definition redrawCanvas :: "session \<Rightarrow> session \<times> host_call list" where
  "redrawCanvas s =
     (case canvasRef s of
        None \<Rightarrow> (s, [])
      | Some cv \<Rightarrow>
          (case ctx2d cv of
             None \<Rightarrow> (s, [])
           | Some ctx0 \<Rightarrow>
               (let ctx1 = ctx_fillRect cv (ctx0\<lparr>fillStyle := ''#FFFFFF''\<rparr>)
                             0 0 (cv_width cv) (cv_height cv);
                    ctx2 = fold (\<lambda>st c. drawLogStroke c st) (strokes s) ctx1;
                    ctx3 = drawCurrentStroke ctx2 (currentStroke s);
                    cv' = cv\<lparr>ctx2d := Some ctx3\<rparr>
                in (s\<lparr>canvasRef := Some cv'\<rparr>, [ImageData (toDataURL cv')]))))"

subsection \<open>Commands\<close>

definition clearCanvas :: "session \<Rightarrow> session \<times> host_call list" where
  "clearCanvas s =
     (let s1 = s\<lparr>strokes := [], currentStroke := None, hasContent := False\<rparr>;
          out1 = [DrawingChange False]
      in case canvasRef s of
           None \<Rightarrow> (s1, out1)
         | Some cv \<Rightarrow>
             (case ctx2d cv of
                None \<Rightarrow> (s1, out1)
              | Some ctx0 \<Rightarrow>
                  (let ctx1 = ctx_fillRect cv (ctx0\<lparr>fillStyle := ''#FFFFFF''\<rparr>)
                                0 0 (cv_width cv) (cv_height cv);
                       cv' = cv\<lparr>ctx2d := Some ctx1\<rparr>
                   in (s1\<lparr>canvasRef := Some cv'\<rparr>, out1 @ [ImageData (toDataURL cv')]))))"

text \<open>\<open>prev.slice(0, -1)\<close> is the list without its last element.\<close>

definition undoLastStroke :: "session \<Rightarrow> session \<times> host_call list" where
  "undoLastStroke s =
     (if length (strokes s) > 0 then
        (let newHasContent = (length (strokes s) > 1)
         in (s\<lparr>strokes := butlast (strokes s), hasContent := newHasContent\<rparr>,
             [DrawingChange newHasContent]))
      else (s, []))"

subsection \<open>Event handlers\<close>

definition handleMouseDown :: "session \<Rightarrow> mouse_event \<Rightarrow> session \<times> host_call list" where
  "handleMouseDown s e = (startDrawing s (getMousePos (canvasRef s) e), [])"

definition handleMouseMove :: "session \<Rightarrow> mouse_event \<Rightarrow> session \<times> host_call list" where
  "handleMouseMove s e = (draw s (getMousePos (canvasRef s) e), [])"

definition handleMouseUp :: "session \<Rightarrow> session \<times> host_call list" where
  "handleMouseUp s = stopDrawing s"

definition handleTouchStart ::
  "session \<Rightarrow> touch_event \<Rightarrow> error + session \<times> host_call list" where
  "handleTouchStart s e =
     (case getTouchPos (canvasRef s) e of
        Inl err \<Rightarrow> Inl err
      | Inr p \<Rightarrow> Inr (startDrawing s p, []))"

definition handleTouchMove ::
  "session \<Rightarrow> touch_event \<Rightarrow> error + session \<times> host_call list" where
  "handleTouchMove s e =
     (case getTouchPos (canvasRef s) e of
        Inl err \<Rightarrow> Inl err
      | Inr p \<Rightarrow> Inr (draw s p, []))"

definition handleTouchEnd :: "session \<Rightarrow> session \<times> host_call list" where
  "handleTouchEnd s = stopDrawing s"

subsection \<open>Dispatch and the redraw effect\<close>

text \<open>
  The events the rendered elements are wired to: the canvas's mouse and touch
  handlers (\<open>onMouseLeave\<close> is \<open>stopDrawing\<close>) and the two buttons.
\<close>

datatype event =
  MouseDown mouse_event
  | MouseMove mouse_event
  | MouseUp
  | MouseLeave
  | TouchStart touch_event
  | TouchMove touch_event
  | TouchEnd
  | ClickClear
  | ClickUndo

fun handler :: "session \<Rightarrow> event \<Rightarrow> error + session \<times> host_call list" where
  "handler s (MouseDown e) = Inr (handleMouseDown s e)"
| "handler s (MouseMove e) = Inr (handleMouseMove s e)"
| "handler s MouseUp = Inr (handleMouseUp s)"
| "handler s MouseLeave = Inr (stopDrawing s)"
| "handler s (TouchStart e) = handleTouchStart s e"
| "handler s (TouchMove e) = handleTouchMove s e"
| "handler s TouchEnd = Inr (handleTouchEnd s)"
| "handler s ClickClear = Inr (clearCanvas s)"
| "handler s ClickUndo = Inr (undoLastStroke s)"

text \<open>
  \<open>useEffect(() => redrawCanvas(), [redrawCanvas])\<close> runs after a render in which
  \<open>strokes\<close> or \<open>currentStroke\<close> is a new object (React compares by reference).
  \<open>stored\<close> tells whether the handler of the event stores a new array or stroke
  object: always on a start and on clear (\<open>setStrokes([])\<close> is a new array), and on
  the other events unless the handler returns at its guard.
\<close>

fun stored :: "session \<Rightarrow> event \<Rightarrow> bool" where
  "stored s (MouseDown e) = True"
| "stored s (TouchStart e) = True"
| "stored s ClickClear = True"
| "stored s ClickUndo = (length (strokes s) > 0)"
| "stored s ev = (isDrawing s \<and> currentStroke s \<noteq> None)"

definition dispatch :: "session \<Rightarrow> event \<Rightarrow> session \<times> host_call list" where
  "dispatch s ev =
     (case handler s ev of
        Inl err \<Rightarrow> (s, [Uncaught err])
      | Inr (s1, out1) \<Rightarrow>
          if stored s ev then
            (let (s2, out2) = redrawCanvas s1 in (s2, out1 @ out2))
          else (s1, out1))"

fun run :: "session \<Rightarrow> event list \<Rightarrow> session \<times> host_call list" where
  "run s [] = (s, [])"
| "run s (ev # evs) =
     (let (s1, out1) = dispatch s ev; (s2, out2) = run s1 evs in (s2, out1 @ out2))"

text \<open>
  Mounting: the initial values of the state cells, a canvas of the given size and
  position with a fresh context, and the first run of the redraw effect.
\<close>

definition initial :: "canvas \<Rightarrow> session" where
  "initial cv =
     \<lparr>canvasRef = Some cv, isDrawing = False, currentStroke = None, strokes = [],
      currentColor = ''#000000'', currentWidth = 5, currentTool = Pen, hasContent = False\<rparr>"

definition mount :: "canvas \<Rightarrow> session \<times> host_call list" where
  "mount cv = redrawCanvas (initial (cv\<lparr>ctx2d := Some fresh_context\<rparr>))"

subsection \<open>The rendering rules as the specification words them\<close>

text \<open>
  The table of per-tool modifiers: line width multiplier, opacity, blend rule. The
  eraser's width is already doubled when the stroke is captured, so its multiplier at
  render time is 1.
\<close>

definition spec_multiplier :: "tool \<Rightarrow> real" where
  "spec_multiplier t = (case t of Pen \<Rightarrow> 1 | Brush \<Rightarrow> 1.5 | Marker \<Rightarrow> 2 | Eraser \<Rightarrow> 1)"

definition spec_opacity :: "tool \<Rightarrow> real" where
  "spec_opacity t = (case t of Pen \<Rightarrow> 1 | Brush \<Rightarrow> 0.7 | Marker \<Rightarrow> 0.5 | Eraser \<Rightarrow> 1)"

definition spec_blend :: "tool \<Rightarrow> string" where
  "spec_blend t = (case t of Eraser \<Rightarrow> ''destination-out'' | _ \<Rightarrow> ''source-over'')"

text \<open>A single connected path through all the points, in their order.\<close>

definition stroke_path :: "point list \<Rightarrow> path_cmd list" where
  "stroke_path pts =
     (case pts of
        [] \<Rightarrow> []
      | p # ps \<Rightarrow> MoveTo (px p) (py p) # map (\<lambda>q. LineTo (px q) (py q)) ps)"

text \<open>
  What one stroke contributes to the surface: nothing with fewer than two points,
  otherwise its path with rounded caps and joins and the modifiers of its tool.
\<close>

definition spec_stroke_paint :: "stroke \<Rightarrow> paint list" where
  "spec_stroke_paint st =
     (if length (points st) < 2 then []
      else [Stroked \<lparr>p_strokeStyle = color st,
                     p_lineWidth = width st * spec_multiplier (tool st),
                     p_lineCap = ''round'', p_lineJoin = ''round'',
                     p_globalAlpha = spec_opacity (tool st),
                     p_composite = spec_blend (tool st),
                     p_path = stroke_path (points st)\<rparr>])"

text \<open>
  One render pass over a surface of the given size: the background fill, the strokes
  of the log in log order, the active stroke last.
\<close>

definition spec_render_pass ::
  "real \<Rightarrow> real \<Rightarrow> stroke list \<Rightarrow> stroke option \<Rightarrow> paint list" where
  "spec_render_pass w h ss active =
     Fill ''#FFFFFF'' 1 ''source-over'' 0 0 w h
       # concat (map spec_stroke_paint ss)
       @ (case active of None \<Rightarrow> [] | Some st \<Rightarrow> spec_stroke_paint st)"

text \<open>
  A path through the points of a stroke in its colour, with rounded caps and joins,
  painted at the given width, opacity and blend rule.
\<close>

definition painted_with :: "stroke \<Rightarrow> real \<Rightarrow> real \<Rightarrow> string \<Rightarrow> painted" where
  "painted_with st w a b =
     \<lparr>p_strokeStyle = color st, p_lineWidth = w, p_lineCap = ''round'',
      p_lineJoin = ''round'', p_globalAlpha = a, p_composite = b,
      p_path = stroke_path (points st)\<rparr>"

text \<open>
  Content presence as the specification words it: the log is non-empty or the active
  stroke has more than one point.
\<close>

definition spec_content_presence :: "session \<Rightarrow> bool" where
  "spec_content_presence s =
     (strokes s \<noteq> [] \<or>
      (case currentStroke s of None \<Rightarrow> False | Some st \<Rightarrow> length (points st) > 1))"

subsection \<open>Auxiliary notions\<close>

text \<open>
  Between two strokes the context is back at full opacity and normal blending: every
  drawn stroke ends by resetting both, and the fresh context starts there.
\<close>

definition ctx_ok :: "context2d \<Rightarrow> bool" where
  "ctx_ok ctx = (globalAlpha ctx = 1 \<and> globalCompositeOperation ctx = ''source-over'')"

text \<open>The canvas is mounted, has its 2D context, and the context is between strokes.\<close>

definition session_ok :: "session \<Rightarrow> bool" where
  "session_ok s =
     (case canvasRef s of
        None \<Rightarrow> False
      | Some cv \<Rightarrow> (case ctx2d cv of None \<Rightarrow> False | Some ctx \<Rightarrow> ctx_ok ctx))"

text \<open>The element without its context: backing size and displayed rectangle.\<close>

definition geometry :: "session \<Rightarrow> canvas option" where
  "geometry s = map_option (\<lambda>cv. cv\<lparr>ctx2d := None\<rparr>) (canvasRef s)"

text \<open>The pixel content of the session's canvas.\<close>

definition surface :: "session \<Rightarrow> paint list" where
  "surface s =
     (case canvasRef s of
        None \<Rightarrow> []
      | Some cv \<Rightarrow> (case ctx2d cv of None \<Rightarrow> [] | Some ctx \<Rightarrow> bitmap ctx))"

text \<open>The image of the session's log and active stroke on a canvas of its size.\<close>

definition rendering :: "session \<Rightarrow> image" where
  "rendering s =
     (case canvasRef s of
        None \<Rightarrow> PNG 0 0 []
      | Some cv \<Rightarrow>
          PNG (cv_width cv) (cv_height cv)
            (spec_render_pass (cv_width cv) (cv_height cv) (strokes s) (currentStroke s)))"

text \<open>The image of a surface of the element's size that holds the background only.\<close>

definition blank_image :: "canvas \<Rightarrow> image" where
  "blank_image cv =
     PNG (cv_width cv) (cv_height cv)
       [Fill ''#FFFFFF'' 1 ''source-over'' 0 0 (cv_width cv) (cv_height cv)]"

text \<open>One stroke drawn with the mouse: press, moves, release.\<close>

definition gesture :: "mouse_event \<Rightarrow> mouse_event list \<Rightarrow> event list" where
  "gesture e es = MouseDown e # map MouseMove es @ [MouseUp]"

text \<open>
  The stroke such a gesture records in the given session: the mapped points in the
  order of the events, with the colour, width and tool captured at the press.
\<close>

definition captured :: "session \<Rightarrow> mouse_event \<Rightarrow> mouse_event list \<Rightarrow> stroke" where
  "captured s e es =
     \<lparr>points = map (getMousePos (canvasRef s)) (e # es),
      color = (if currentTool s = Eraser then ''#FFFFFF'' else currentColor s),
      width = (if currentTool s = Eraser then currentWidth s * 2 else currentWidth s),
      tool = currentTool s\<rparr>"

text \<open>The image the host holds after a sequence of calls: the last one delivered.\<close>

fun last_image :: "host_call list \<Rightarrow> image option" where
  "last_image [] = None"
| "last_image (c # cs) =
     (case last_image cs of
        Some i \<Rightarrow> Some i
      | None \<Rightarrow> (case c of ImageData i \<Rightarrow> Some i | _ \<Rightarrow> None))"

text \<open>\<open>undo()\<close> called \<open>n\<close> times in a row, with everything it emits.\<close>

fun undo_times :: "nat \<Rightarrow> session \<Rightarrow> session \<times> host_call list" where
  "undo_times 0 s = (s, [])"
| "undo_times (Suc n) s =
     (let (s1, out1) = undoLastStroke s; (s2, out2) = undo_times n s1 in (s2, out1 @ out2))"

text \<open>
  A canvas of 800 by 600 pixels displayed at half size, 10 pixels from the left and
  20 from the top of the viewport, and the session mounted on it.
\<close>

definition demo_canvas :: canvas where
  "demo_canvas =
     \<lparr>cv_width = 800, cv_height = 600, rect_left = 10, rect_top = 20,
      rect_width = 400, rect_height = 300, ctx2d = Some fresh_context\<rparr>"

definition demo_session :: session where
  "demo_session = initial demo_canvas"

text \<open>
  The same session on a canvas whose context still holds other attributes, a path and
  other pixels, displayed at another position.
\<close>

definition stale_session :: session where
  "stale_session =
     demo_session\<lparr>canvasRef :=
       Some (demo_canvas\<lparr>rect_left := 0,
          ctx2d := Some (fresh_context\<lparr>strokeStyle := ''#123456'', lineWidth := 9,
                     path := [MoveTo (Finite 1) (Finite 1)],
                     bitmap := [Fill ''#000000'' 1 ''source-over'' 0 0 10 10]\<rparr>)\<rparr>),
       hasContent := True\<rparr>"

text \<open>Three strokes: a red pen line, a brush stroke of three points, a single dot.\<close>

definition demo_line :: stroke where
  "demo_line =
     \<lparr>points = [\<lparr>px = Finite 100, py = Finite 100\<rparr>, \<lparr>px = Finite 700, py = Finite 100\<rparr>],
      color = ''#FF0000'', width = 5, tool = Pen\<rparr>"

definition demo_brush :: stroke where
  "demo_brush =
     \<lparr>points = [\<lparr>px = Finite 0, py = Finite 0\<rparr>, \<lparr>px = Finite 50, py = Finite 50\<rparr>, \<lparr>px = Finite 60, py = Finite 10\<rparr>],
      color = ''#00FF00'', width = 4, tool = Brush\<rparr>"

definition demo_dot :: stroke where
  "demo_dot = \<lparr>points = [\<lparr>px = Finite 5, py = Finite 5\<rparr>], color = ''#000000'', width = 5, tool = Pen\<rparr>"

section \<open>Properties\<close>

subsection \<open>The path of a stroke\<close>

lemma lineTo_fold:
  "fold (\<lambda>i c. ctx_lineTo c (f i) (g i)) is ctx
     = ctx\<lparr>path := path ctx @ map (\<lambda>i. LineTo (f i) (g i)) is\<rparr>"
  by (induction "is" arbitrary: ctx) (simp_all add: ctx_lineTo_def)

lemma nth_from_one: "map (\<lambda>i. h (xs ! i)) [1 ..< length xs] = map h (tl xs)"
  by (rule nth_equalityI) (simp_all add: nth_tl)

lemma stroke_path_nth:
  "2 \<le> length pts \<Longrightarrow>
   MoveTo (px (pts ! 0)) (py (pts ! 0))
     # map (\<lambda>i. LineTo (px (pts ! i)) (py (pts ! i))) [1 ..< length pts]
     = stroke_path pts"
  using nth_from_one [of "\<lambda>q. LineTo (px q) (py q)" pts]
  by (cases pts) (simp_all add: stroke_path_def)

subsection \<open>One stroke on the surface\<close>

lemma drawLogStroke_eq:
  assumes "ctx_ok ctx"
  shows "drawLogStroke ctx st =
     (if length (points st) < 2 then ctx
      else ctx\<lparr>strokeStyle := color st, lineWidth := width st * spec_multiplier (tool st),
               lineCap := ''round'', lineJoin := ''round'',
               path := stroke_path (points st),
               bitmap := bitmap ctx @ spec_stroke_paint st\<rparr>)"
  using assms stroke_path_nth [of "points st"]
  by (cases "tool st")
     (simp_all add: drawLogStroke_def ctx_ok_def Let_def lineTo_fold ctx_beginPath_def
        ctx_moveTo_def ctx_stroke_def spec_stroke_paint_def spec_multiplier_def
        spec_opacity_def spec_blend_def)

lemma drawCurrentStroke_eq:
  assumes "ctx_ok ctx"
  shows "drawCurrentStroke ctx (Some st) =
     (if length (points st) < 2 then ctx
      else ctx\<lparr>strokeStyle := color st, lineWidth := width st * spec_multiplier (tool st),
               lineCap := ''round'', lineJoin := ''round'',
               path := stroke_path (points st),
               bitmap := bitmap ctx @ spec_stroke_paint st\<rparr>)"
proof (cases "length (points st) < 2")
  case True
  then have "\<not> 1 < length (points st)" by simp
  with True show ?thesis by (simp add: drawCurrentStroke_def)
next
  case False
  then have "1 < length (points st)" "2 \<le> length (points st)" by simp_all
  with assms stroke_path_nth [of "points st"] show ?thesis
    by (cases "tool st")
       (simp_all add: drawCurrentStroke_def ctx_ok_def Let_def lineTo_fold ctx_beginPath_def
          ctx_moveTo_def ctx_stroke_def spec_stroke_paint_def spec_multiplier_def
          spec_opacity_def spec_blend_def)
qed

lemma drawLogStroke_ok: "ctx_ok ctx \<Longrightarrow> ctx_ok (drawLogStroke ctx st)"
  by (simp add: drawLogStroke_eq) (simp add: ctx_ok_def)

lemma drawLogStroke_bitmap:
  "ctx_ok ctx \<Longrightarrow> bitmap (drawLogStroke ctx st) = bitmap ctx @ spec_stroke_paint st"
  by (simp add: drawLogStroke_eq) (simp add: spec_stroke_paint_def)

lemma drawCurrentStroke_ok: "ctx_ok ctx \<Longrightarrow> ctx_ok (drawCurrentStroke ctx cur)"
  by (cases cur)
     (simp_all add: drawCurrentStroke_eq, simp_all add: ctx_ok_def drawCurrentStroke_def)

lemma drawCurrentStroke_bitmap:
  "ctx_ok ctx \<Longrightarrow>
   bitmap (drawCurrentStroke ctx cur)
     = bitmap ctx @ (case cur of None \<Rightarrow> [] | Some st \<Rightarrow> spec_stroke_paint st)"
  by (cases cur)
     (simp_all add: drawCurrentStroke_eq,
      simp_all add: spec_stroke_paint_def drawCurrentStroke_def)

subsection \<open>The whole pass\<close>

lemma forEach_ok: "ctx_ok ctx \<Longrightarrow> ctx_ok (fold (\<lambda>st c. drawLogStroke c st) ss ctx)"
  by (induction ss arbitrary: ctx) (simp_all add: drawLogStroke_ok)

lemma forEach_bitmap:
  "ctx_ok ctx \<Longrightarrow>
   bitmap (fold (\<lambda>st c. drawLogStroke c st) ss ctx)
     = bitmap ctx @ concat (map spec_stroke_paint ss)"
  by (induction ss arbitrary: ctx) (simp_all add: drawLogStroke_ok drawLogStroke_bitmap)

lemma background_fill:
  assumes "ctx_ok ctx"
  shows "ctx_fillRect cv (ctx\<lparr>fillStyle := ''#FFFFFF''\<rparr>) 0 0 (cv_width cv) (cv_height cv)
           = ctx\<lparr>fillStyle := ''#FFFFFF'',
                 bitmap := [Fill ''#FFFFFF'' 1 ''source-over'' 0 0 (cv_width cv) (cv_height cv)]\<rparr>"
  using assms by (simp add: ctx_fillRect_def ctx_ok_def opaque_colour_def)

lemma session_okE:
  assumes "session_ok s"
  obtains cv ctx where "canvasRef s = Some cv" "ctx2d cv = Some ctx" "ctx_ok ctx"
  using assms by (auto simp: session_ok_def split: option.splits)

lemma redrawCanvas_out:
  assumes "session_ok s"
  shows "snd (redrawCanvas s) = [ImageData (rendering s)]"
proof -
  from assms obtain cv ctx where c: "canvasRef s = Some cv" "ctx2d cv = Some ctx" "ctx_ok ctx"
    by (rule session_okE)
  let ?bg = "ctx\<lparr>fillStyle := ''#FFFFFF'',
                 bitmap := [Fill ''#FFFFFF'' 1 ''source-over'' 0 0 (cv_width cv) (cv_height cv)]\<rparr>"
  have ok: "ctx_ok ?bg" using c(3) by (simp add: ctx_ok_def)
  have ok2: "ctx_ok (fold (\<lambda>st c. drawLogStroke c st) (strokes s) ?bg)"
    using ok by (rule forEach_ok)
  show ?thesis
    using c
    by (simp add: redrawCanvas_def Let_def background_fill toDataURL_def rendering_def
        spec_render_pass_def drawCurrentStroke_bitmap [OF ok2] forEach_bitmap [OF ok])
qed

lemma redrawCanvas_surface:
  assumes "session_ok s" and "canvasRef s = Some cv"
  shows "surface (fst (redrawCanvas s))
           = spec_render_pass (cv_width cv) (cv_height cv) (strokes s) (currentStroke s)"
proof -
  from assms obtain ctx where c: "ctx2d cv = Some ctx" "ctx_ok ctx"
    by (auto elim: session_okE)
  let ?bg = "ctx\<lparr>fillStyle := ''#FFFFFF'',
                 bitmap := [Fill ''#FFFFFF'' 1 ''source-over'' 0 0 (cv_width cv) (cv_height cv)]\<rparr>"
  have ok: "ctx_ok ?bg" using c(2) by (simp add: ctx_ok_def)
  have ok2: "ctx_ok (fold (\<lambda>st c. drawLogStroke c st) (strokes s) ?bg)"
    using ok by (rule forEach_ok)
  show ?thesis
    using c assms(2)
    by (simp add: redrawCanvas_def Let_def background_fill surface_def
        spec_render_pass_def drawCurrentStroke_bitmap [OF ok2] forEach_bitmap [OF ok])
qed

lemma redrawCanvas_ok:
  assumes "session_ok s"
  shows "session_ok (fst (redrawCanvas s))"
proof -
  from assms obtain cv ctx where c: "canvasRef s = Some cv" "ctx2d cv = Some ctx" "ctx_ok ctx"
    by (rule session_okE)
  let ?bg = "ctx\<lparr>fillStyle := ''#FFFFFF'',
                 bitmap := [Fill ''#FFFFFF'' 1 ''source-over'' 0 0 (cv_width cv) (cv_height cv)]\<rparr>"
  have ok: "ctx_ok ?bg" using c(3) by (simp add: ctx_ok_def)
  have ok2: "ctx_ok (fold (\<lambda>st c. drawLogStroke c st) (strokes s) ?bg)"
    using ok by (rule forEach_ok)
  show ?thesis
    using c drawCurrentStroke_ok [OF ok2, of "currentStroke s"]
    by (simp add: redrawCanvas_def Let_def background_fill session_ok_def)
qed

text \<open>The pass changes nothing of the session but the canvas's context.\<close>

lemma redrawCanvas_frame:
  "fst (redrawCanvas s) = s\<lparr>canvasRef := canvasRef (fst (redrawCanvas s))\<rparr>"
  "geometry (fst (redrawCanvas s)) = geometry s"
  by (simp_all add: redrawCanvas_def Let_def geometry_def split: option.splits)

lemma redrawCanvas_fields:
  "isDrawing (fst (redrawCanvas s)) = isDrawing s"
  "currentStroke (fst (redrawCanvas s)) = currentStroke s"
  "strokes (fst (redrawCanvas s)) = strokes s"
  "hasContent (fst (redrawCanvas s)) = hasContent s"
  by (simp_all add: redrawCanvas_def Let_def split: option.splits)

lemma geometry_size:
  assumes "geometry s = geometry t" and "canvasRef s = Some a" and "canvasRef t = Some b"
  shows "cv_width a = cv_width b" and "cv_height a = cv_height b"
proof -
  from assms have eq: "a\<lparr>ctx2d := None\<rparr> = b\<lparr>ctx2d := None\<rparr>"
    by (simp add: geometry_def)
  from arg_cong [OF eq, of cv_width] show "cv_width a = cv_width b" by simp
  from arg_cong [OF eq, of cv_height] show "cv_height a = cv_height b" by simp
qed

lemma geometry_None: "geometry s = geometry t \<Longrightarrow> canvasRef s = None \<longleftrightarrow> canvasRef t = None"
  by (auto simp: geometry_def)

lemma rendering_cong:
  assumes "geometry s = geometry t" and "strokes s = strokes t"
    and "currentStroke s = currentStroke t"
  shows "rendering s = rendering t"
proof (cases "canvasRef s")
  case None
  with geometry_None [OF assms(1)] show ?thesis by (simp add: rendering_def)
next
  case (Some a)
  with geometry_None [OF assms(1)] obtain b where b: "canvasRef t = Some b" by auto
  from geometry_size [OF assms(1) Some b] assms(2,3) Some b show ?thesis
    by (simp add: rendering_def)
qed

subsection \<open>The coordinate mapper\<close>

text \<open>
  Claim C8 does not hold as stated. The only degenerate case the mapper handles is
  the null reference. On a mounted element that is displayed with width and height
  zero (not yet measured) it divides by zero and returns an infinity and \<open>NaN\<close>, not
  the origin.
\<close>

theorem geometry_mapper_counterexample:
  "getMousePos (Some (demo_canvas\<lparr>rect_width := 0, rect_height := 0\<rparr>))
       \<lparr>clientX = 110, clientY = 20\<rparr>
     = \<lparr>px = PosInfinity, py = NaN\<rparr>
   \<and> getTouchPos (Some (demo_canvas\<lparr>rect_width := 0, rect_height := 0\<rparr>))
       \<lparr>touches = [\<lparr>clientX = 110, clientY = 20\<rparr>]\<rparr>
     = Inr \<lparr>px = PosInfinity, py = NaN\<rparr>"
  by (simp add: getMousePos_def getTouchPos_def demo_canvas_def js_div_def js_mul_def)

text \<open>
  Claim C8, amended. On a mounted element displayed with non-zero width and height
  the mapper returns
  \<open>((clientX - left) * (backingWidth / displayedWidth),
    (clientY - top) * (backingHeight / displayedHeight))\<close>
  for a mouse event, and for a touch event what it returns for the first touch
  point; it is a function of the element and the event and changes no state. When
  the element is not mounted (the reference is null) it returns the origin, for a
  mouse event and for any touch event, instead of failing. On a mounted element
  displayed with width zero the first coordinate is not finite, with height zero the
  second is not; the mapper does not fail there either, and it does not return the
  origin.
\<close>

theorem geometry_mapper:
  "(rect_width cv \<noteq> 0 \<and> rect_height cv \<noteq> 0 \<longrightarrow>
      getMousePos (Some cv) e =
        \<lparr>px = Finite ((clientX e - rect_left cv) * (cv_width cv / rect_width cv)),
         py = Finite ((clientY e - rect_top cv) * (cv_height cv / rect_height cv))\<rparr>)
   \<and> (rect_width cv \<noteq> 0 \<longrightarrow>
      px (getMousePos (Some cv) e)
        = Finite ((clientX e - rect_left cv) * (cv_width cv / rect_width cv)))
   \<and> (rect_height cv \<noteq> 0 \<longrightarrow>
      py (getMousePos (Some cv) e)
        = Finite ((clientY e - rect_top cv) * (cv_height cv / rect_height cv)))
   \<and> getTouchPos ref \<lparr>touches = t # ts\<rparr> = Inr (getMousePos ref t)
   \<and> getMousePos None e = \<lparr>px = Finite 0, py = Finite 0\<rparr>
   \<and> getTouchPos None te = Inr \<lparr>px = Finite 0, py = Finite 0\<rparr>
   \<and> (rect_width cv = 0 \<longrightarrow> \<not> is_finite (px (getMousePos (Some cv) e)))
   \<and> (rect_height cv = 0 \<longrightarrow> \<not> is_finite (py (getMousePos (Some cv) e)))"
proof -
  have inf: "\<not> is_finite (js_mul d (js_div a 0))" for d a
    by (simp add: js_mul_def js_div_def is_finite_def)
  have fin: "b \<noteq> 0 \<Longrightarrow> js_mul d (js_div a b) = Finite (d * (a / b))" for d a b
    by (simp add: js_mul_def js_div_def)
  have both: "rect_width cv \<noteq> 0 \<and> rect_height cv \<noteq> 0 \<longrightarrow>
      getMousePos (Some cv) e =
        \<lparr>px = Finite ((clientX e - rect_left cv) * (cv_width cv / rect_width cv)),
         py = Finite ((clientY e - rect_top cv) * (cv_height cv / rect_height cv))\<rparr>"
    by (simp add: getMousePos_def fin)
  have x: "rect_width cv \<noteq> 0 \<longrightarrow>
      px (getMousePos (Some cv) e)
        = Finite ((clientX e - rect_left cv) * (cv_width cv / rect_width cv))"
    by (simp add: getMousePos_def fin)
  have y: "rect_height cv \<noteq> 0 \<longrightarrow>
      py (getMousePos (Some cv) e)
        = Finite ((clientY e - rect_top cv) * (cv_height cv / rect_height cv))"
    by (simp add: getMousePos_def fin)
  have touch: "getTouchPos ref \<lparr>touches = t # ts\<rparr> = Inr (getMousePos ref t)"
    by (simp add: getTouchPos_def getMousePos_def split: option.splits)
  have null: "getMousePos None e = \<lparr>px = Finite 0, py = Finite 0\<rparr>"
    "getTouchPos None te = Inr \<lparr>px = Finite 0, py = Finite 0\<rparr>"
    by (simp_all add: getMousePos_def getTouchPos_def)
  have x0: "rect_width cv = 0 \<longrightarrow> \<not> is_finite (px (getMousePos (Some cv) e))"
    by (simp add: getMousePos_def inf)
  have y0: "rect_height cv = 0 \<longrightarrow> \<not> is_finite (py (getMousePos (Some cv) e))"
    by (simp add: getMousePos_def inf)
  from both x y touch null x0 y0 show ?thesis by blast
qed

theorem geometry_mapper_witness:
  "rect_width demo_canvas \<noteq> 0 \<and> rect_height demo_canvas \<noteq> 0
   \<and> getMousePos (Some demo_canvas) \<lparr>clientX = 110, clientY = 170\<rparr>
       = \<lparr>px = Finite 200, py = Finite 300\<rparr>
   \<and> getTouchPos (Some demo_canvas) \<lparr>touches = [\<lparr>clientX = 110, clientY = 170\<rparr>]\<rparr>
       = Inr \<lparr>px = Finite 200, py = Finite 300\<rparr>
   \<and> getMousePos None \<lparr>clientX = 110, clientY = 170\<rparr> = \<lparr>px = Finite 0, py = Finite 0\<rparr>
   \<and> getTouchPos None \<lparr>touches = []\<rparr> = Inr \<lparr>px = Finite 0, py = Finite 0\<rparr>
   \<and> rect_width (demo_canvas\<lparr>rect_width := 0\<rparr>) = 0
   \<and> \<not> is_finite (px (getMousePos (Some (demo_canvas\<lparr>rect_width := 0\<rparr>))
                             \<lparr>clientX = 110, clientY = 170\<rparr>))"
proof -
  have nz: "rect_width demo_canvas \<noteq> 0 \<and> rect_height demo_canvas \<noteq> 0"
    by (simp add: demo_canvas_def)
  have z: "rect_width (demo_canvas\<lparr>rect_width := 0\<rparr>) = 0" by simp
  note T = geometry_mapper [where cv = demo_canvas and e = "\<lparr>clientX = 110, clientY = 170\<rparr>"
      and t = "\<lparr>clientX = 110, clientY = 170\<rparr>" and ts = "[]" and ref = "Some demo_canvas"
      and te = "\<lparr>touches = []\<rparr>"]
  from T nz have m: "getMousePos (Some demo_canvas) \<lparr>clientX = 110, clientY = 170\<rparr> =
        \<lparr>px = Finite ((clientX \<lparr>clientX = 110, clientY = 170\<rparr> - rect_left demo_canvas)
                 * (cv_width demo_canvas / rect_width demo_canvas)),
         py = Finite ((clientY \<lparr>clientX = 110, clientY = 170\<rparr> - rect_top demo_canvas)
                 * (cv_height demo_canvas / rect_height demo_canvas))\<rparr>"
    by blast
  have m': "getMousePos (Some demo_canvas) \<lparr>clientX = 110, clientY = 170\<rparr>
       = \<lparr>px = Finite 200, py = Finite 300\<rparr>"
    unfolding m by (simp add: demo_canvas_def)
  from T have tp: "getTouchPos (Some demo_canvas) \<lparr>touches = [\<lparr>clientX = 110, clientY = 170\<rparr>]\<rparr>
       = Inr (getMousePos (Some demo_canvas) \<lparr>clientX = 110, clientY = 170\<rparr>)"
    by blast
  from T have n: "getMousePos None \<lparr>clientX = 110, clientY = 170\<rparr> = \<lparr>px = Finite 0, py = Finite 0\<rparr>"
    "getTouchPos None \<lparr>touches = []\<rparr> = Inr \<lparr>px = Finite 0, py = Finite 0\<rparr>"
    by blast+
  from geometry_mapper [where cv = "demo_canvas\<lparr>rect_width := 0\<rparr>"
      and e = "\<lparr>clientX = 110, clientY = 170\<rparr>"] z
  have i: "\<not> is_finite (px (getMousePos (Some (demo_canvas\<lparr>rect_width := 0\<rparr>))
                             \<lparr>clientX = 110, clientY = 170\<rparr>))"
    by blast
  from nz m' tp n z i show ?thesis by simp
qed

subsection \<open>Undo\<close>

lemma undo_times_strokes:
  "strokes (fst (undo_times n s)) = take (length (strokes s) - n) (strokes s)"
proof (induction n arbitrary: s)
  case 0
  show ?case by simp
next
  case (Suc n)
  show ?case
  proof (cases "strokes s = []")
    case True
    with Suc [of s] show ?thesis
      by (simp add: undoLastStroke_def split_beta)
  next
    case False
    have "take (length (strokes s) - Suc n) (strokes s)
            = take (length (butlast (strokes s)) - n) (butlast (strokes s))"
      by (simp add: butlast_conv_take min_def)
    with False Suc [of "fst (undoLastStroke s)"] show ?thesis
      by (simp add: undoLastStroke_def split_beta Let_def)
  qed
qed

lemma undo_times_last:
  "length (strokes s) = Suc n \<Longrightarrow>
   hasContent (fst (undo_times (Suc n) s)) = False
   \<and> last (snd (undo_times (Suc n) s)) = DrawingChange False"
proof (induction n arbitrary: s)
  case 0
  then show ?case by (simp add: undoLastStroke_def split_beta Let_def)
next
  case (Suc n)
  let ?s1 = "fst (undoLastStroke s)"
  from Suc.prems have len: "length (strokes ?s1) = Suc n"
    by (simp add: undoLastStroke_def Let_def)
  from Suc.IH [OF len] have ih: "hasContent (fst (undo_times (Suc n) ?s1)) = False"
     "last (snd (undo_times (Suc n) ?s1)) = DrawingChange False" by simp_all
  have ne: "snd (undo_times (Suc n) ?s1) \<noteq> []"
    using len by (simp add: undoLastStroke_def split_beta Let_def)
  have unf: "undo_times (Suc (Suc n)) s =
      (fst (undo_times (Suc n) ?s1), snd (undoLastStroke s) @ snd (undo_times (Suc n) ?s1))"
    by (simp add: split_beta Let_def)
  show ?case unfolding unf using ih ne by simp
qed

text \<open>
  Claim C4. On a log of \<open>N \<ge> 1\<close> strokes one \<open>undo()\<close> keeps the first \<open>N - 1\<close> entries,
  changes nothing else of the session but the stored flag, and emits content presence
  \<open>N - 1 > 0\<close>. On an empty log it changes nothing and emits nothing. Called \<open>N\<close> times
  on \<open>N\<close> strokes it leaves the log empty and, for \<open>N \<ge> 1\<close>, the last value emitted and
  the stored flag are false.
\<close>

theorem undo_one_step:
  "(strokes s \<noteq> [] \<longrightarrow>
      undoLastStroke s =
        (s\<lparr>strokes := take (length (strokes s) - 1) (strokes s),
           hasContent := (length (strokes s) - 1 > 0)\<rparr>,
         [DrawingChange (length (strokes s) - 1 > 0)]))
   \<and> (strokes s = [] \<longrightarrow> undoLastStroke s = (s, []))
   \<and> strokes (fst (undo_times (length (strokes s)) s)) = []
   \<and> (strokes s \<noteq> [] \<longrightarrow>
        hasContent (fst (undo_times (length (strokes s)) s)) = False
        \<and> last (snd (undo_times (length (strokes s)) s)) = DrawingChange False)"
proof -
  have one: "strokes s \<noteq> [] \<longrightarrow>
      undoLastStroke s =
        (s\<lparr>strokes := take (length (strokes s) - 1) (strokes s),
           hasContent := (length (strokes s) - 1 > 0)\<rparr>,
         [DrawingChange (length (strokes s) - 1 > 0)])"
    by (auto simp: undoLastStroke_def Let_def butlast_conv_take)
  have none: "strokes s = [] \<longrightarrow> undoLastStroke s = (s, [])"
    by (simp add: undoLastStroke_def)
  have all: "strokes (fst (undo_times (length (strokes s)) s)) = []"
    by (simp add: undo_times_strokes)
  have fin: "strokes s \<noteq> [] \<longrightarrow>
        hasContent (fst (undo_times (length (strokes s)) s)) = False
        \<and> last (snd (undo_times (length (strokes s)) s)) = DrawingChange False"
  proof
    assume "strokes s \<noteq> []"
    then obtain n where "length (strokes s) = Suc n" by (cases "strokes s") auto
    with undo_times_last [of s n] show "hasContent (fst (undo_times (length (strokes s)) s)) = False
        \<and> last (snd (undo_times (length (strokes s)) s)) = DrawingChange False" by simp
  qed
  from one none all fin show ?thesis by blast
qed

theorem undo_one_step_witness:
  "undoLastStroke (demo_session\<lparr>strokes := [demo_line, demo_brush]\<rparr>) =
     (demo_session\<lparr>strokes := [demo_line], hasContent := True\<rparr>, [DrawingChange True])
   \<and> strokes (fst (undo_times (Suc (Suc 0)) (demo_session\<lparr>strokes := [demo_line, demo_brush]\<rparr>))) = []
   \<and> hasContent (fst (undo_times (Suc (Suc 0)) (demo_session\<lparr>strokes := [demo_line, demo_brush]\<rparr>)))
       = False
   \<and> last (snd (undo_times (Suc (Suc 0)) (demo_session\<lparr>strokes := [demo_line, demo_brush]\<rparr>)))
       = DrawingChange False"
  using undo_one_step [of "demo_session\<lparr>strokes := [demo_line, demo_brush]\<rparr>"]
  by (simp del: undo_times.simps)

subsection \<open>Degenerate strokes\<close>


lemma drawLogStroke_skip: "length (points st) < 2 \<Longrightarrow> drawLogStroke ctx st = ctx"
  by (simp add: drawLogStroke_def)

lemma drawCurrentStroke_skip:
  "length (points st) < 2 \<Longrightarrow> drawCurrentStroke ctx (Some st) = drawCurrentStroke ctx None"
  by (simp add: drawCurrentStroke_def)

lemma redrawCanvas_skip_log:
  assumes "length (points st) < 2"
  shows "redrawCanvas (s\<lparr>strokes := xs @ st # ys\<rparr>)
           = (fst (redrawCanvas (s\<lparr>strokes := xs @ ys\<rparr>))\<lparr>strokes := xs @ st # ys\<rparr>,
              snd (redrawCanvas (s\<lparr>strokes := xs @ ys\<rparr>)))"
  using assms
  by (simp add: redrawCanvas_def Let_def drawLogStroke_skip split: option.splits)

lemma redrawCanvas_skip_active:
  assumes "length (points st) < 2"
  shows "redrawCanvas (s\<lparr>currentStroke := Some st\<rparr>)
           = (fst (redrawCanvas (s\<lparr>currentStroke := None\<rparr>))\<lparr>currentStroke := Some st\<rparr>,
              snd (redrawCanvas (s\<lparr>currentStroke := None\<rparr>)))"
  using assms
  by (simp add: redrawCanvas_def Let_def drawCurrentStroke_skip split: option.splits)

text \<open>
  Claim C7. A stroke with fewer than two points is skipped by both drawing steps: the
  loop over the log and the block for the active stroke leave the context, and with it
  the surface, exactly as they found it, so the image of a pass is the image of the
  pass without that stroke. Completion still appends such a stroke to the log.
\<close>

theorem degenerate_stroke_skipped:
  assumes "length (points st) < 2"
  shows "drawLogStroke ctx st = ctx
    \<and> drawCurrentStroke ctx (Some st) = ctx
    \<and> snd (redrawCanvas (s\<lparr>strokes := xs @ st # ys\<rparr>)) = snd (redrawCanvas (s\<lparr>strokes := xs @ ys\<rparr>))
    \<and> snd (redrawCanvas (s\<lparr>currentStroke := Some st\<rparr>))
        = snd (redrawCanvas (s\<lparr>currentStroke := None\<rparr>))
    \<and> strokes (fst (stopDrawing (s\<lparr>isDrawing := True, currentStroke := Some st\<rparr>)))
        = strokes s @ [st]"
proof -
  have a: "drawLogStroke ctx st = ctx" using assms by (rule drawLogStroke_skip)
  have b: "drawCurrentStroke ctx (Some st) = ctx"
    using assms by (simp add: drawCurrentStroke_def)
  have c: "snd (redrawCanvas (s\<lparr>strokes := xs @ st # ys\<rparr>))
             = snd (redrawCanvas (s\<lparr>strokes := xs @ ys\<rparr>))"
    by (simp add: redrawCanvas_skip_log [OF assms])
  have d: "snd (redrawCanvas (s\<lparr>currentStroke := Some st\<rparr>))
             = snd (redrawCanvas (s\<lparr>currentStroke := None\<rparr>))"
    by (simp add: redrawCanvas_skip_active [OF assms])
  have e: "strokes (fst (stopDrawing (s\<lparr>isDrawing := True, currentStroke := Some st\<rparr>)))
             = strokes s @ [st]"
    by (simp add: stopDrawing_def Let_def)
  from a b c d e show ?thesis by simp
qed

theorem degenerate_stroke_skipped_witness:
  "length (points demo_dot) < 2
   \<and> drawLogStroke fresh_context demo_dot = fresh_context
   \<and> drawCurrentStroke fresh_context (Some demo_dot) = fresh_context
   \<and> snd (redrawCanvas (demo_session\<lparr>strokes := [demo_line] @ demo_dot # [demo_brush]\<rparr>))
       = snd (redrawCanvas (demo_session\<lparr>strokes := [demo_line] @ [demo_brush]\<rparr>))
   \<and> snd (redrawCanvas (demo_session\<lparr>currentStroke := Some demo_dot\<rparr>))
       = snd (redrawCanvas (demo_session\<lparr>currentStroke := None\<rparr>))
   \<and> strokes (fst (stopDrawing (demo_session\<lparr>isDrawing := True, currentStroke := Some demo_dot\<rparr>)))
       = strokes demo_session @ [demo_dot]"
proof -
  have h: "length (points demo_dot) < 2" by (simp add: demo_dot_def)
  from h degenerate_stroke_skipped [OF h, where ctx = fresh_context and s = demo_session
      and xs = "[demo_line]" and ys = "[demo_brush]"]
  show ?thesis by blast
qed

subsection \<open>Tool modifiers\<close>

text \<open>
  Claim C3. A stroke of at least two points, drawn on a context that is between
  strokes, is painted with its stored colour, rounded caps and joins, along the path
  through its points, and: for the pen at its stored width, opacity 1, blend rule
  \<open>source-over\<close>; for the brush at 1.5 times the width, opacity 0.7, \<open>source-over\<close>; for the
  marker at twice the width, opacity 0.5, \<open>source-over\<close>; for the eraser at the stored
  width, opacity 1, blend rule \<open>destination-out\<close>. The loop over the log and the block
  for the active stroke paint the same. At stroke start the eraser captures the
  colour \<open>#FFFFFF\<close> (the colour of the background fill) and twice the configured
  width; every other tool captures the configured colour and width as they are.
\<close>

theorem tool_modifiers:
  assumes "ctx_ok ctx" and "2 \<le> length (points st)"
  shows
   "(tool st = Pen \<longrightarrow>
       bitmap (drawLogStroke ctx st) = bitmap ctx @
         [Stroked (painted_with st (width st) 1 ''source-over'')]
       \<and> bitmap (drawCurrentStroke ctx (Some st)) = bitmap ctx @
         [Stroked (painted_with st (width st) 1 ''source-over'')])
    \<and> (tool st = Brush \<longrightarrow>
       bitmap (drawLogStroke ctx st) = bitmap ctx @
         [Stroked (painted_with st (width st * 1.5) 0.7 ''source-over'')]
       \<and> bitmap (drawCurrentStroke ctx (Some st)) = bitmap ctx @
         [Stroked (painted_with st (width st * 1.5) 0.7 ''source-over'')])
    \<and> (tool st = Marker \<longrightarrow>
       bitmap (drawLogStroke ctx st) = bitmap ctx @
         [Stroked (painted_with st (width st * 2) 0.5 ''source-over'')]
       \<and> bitmap (drawCurrentStroke ctx (Some st)) = bitmap ctx @
         [Stroked (painted_with st (width st * 2) 0.5 ''source-over'')])
    \<and> (tool st = Eraser \<longrightarrow>
       bitmap (drawLogStroke ctx st) = bitmap ctx @
         [Stroked (painted_with st (width st) 1 ''destination-out'')]
       \<and> bitmap (drawCurrentStroke ctx (Some st)) = bitmap ctx @
         [Stroked (painted_with st (width st) 1 ''destination-out'')])
    \<and> currentStroke (startDrawing s p) =
        Some \<lparr>points = [p],
              color = (if currentTool s = Eraser then ''#FFFFFF'' else currentColor s),
              width = (if currentTool s = Eraser then currentWidth s * 2 else currentWidth s),
              tool = currentTool s\<rparr>"
proof -
  have paint: "spec_stroke_paint st =
      [Stroked (painted_with st (width st * spec_multiplier (tool st))
         (spec_opacity (tool st)) (spec_blend (tool st)))]"
    using assms(2) by (simp add: spec_stroke_paint_def painted_with_def)
  have l: "bitmap (drawLogStroke ctx st) = bitmap ctx @ spec_stroke_paint st"
    using assms(1) by (rule drawLogStroke_bitmap)
  have c: "bitmap (drawCurrentStroke ctx (Some st)) = bitmap ctx @ spec_stroke_paint st"
    using drawCurrentStroke_bitmap [OF assms(1), of "Some st"] by simp
  have start: "currentStroke (startDrawing s p) =
        Some \<lparr>points = [p],
              color = (if currentTool s = Eraser then ''#FFFFFF'' else currentColor s),
              width = (if currentTool s = Eraser then currentWidth s * 2 else currentWidth s),
              tool = currentTool s\<rparr>"
    by (simp add: startDrawing_def Let_def)
  show ?thesis
    unfolding l c paint
    using start by (simp add: spec_multiplier_def spec_opacity_def spec_blend_def)
qed

theorem tool_modifiers_witness:
  "ctx_ok fresh_context \<and> 2 \<le> length (points demo_brush) \<and> tool demo_brush = Brush
   \<and> bitmap (drawLogStroke fresh_context demo_brush) =
       [Stroked \<lparr>p_strokeStyle = ''#00FF00'', p_lineWidth = 6, p_lineCap = ''round'',
                 p_lineJoin = ''round'', p_globalAlpha = 0.7, p_composite = ''source-over'',
                 p_path = [MoveTo (Finite 0) (Finite 0), LineTo (Finite 50) (Finite 50), LineTo (Finite 60) (Finite 10)]\<rparr>]
   \<and> bitmap (drawCurrentStroke fresh_context (Some demo_brush)) =
       [Stroked \<lparr>p_strokeStyle = ''#00FF00'', p_lineWidth = 6, p_lineCap = ''round'',
                 p_lineJoin = ''round'', p_globalAlpha = 0.7, p_composite = ''source-over'',
                 p_path = [MoveTo (Finite 0) (Finite 0), LineTo (Finite 50) (Finite 50), LineTo (Finite 60) (Finite 10)]\<rparr>]
   \<and> currentStroke (startDrawing (demo_session\<lparr>currentTool := Eraser\<rparr>) \<lparr>px = Finite 1, py = Finite 2\<rparr>) =
       Some \<lparr>points = [\<lparr>px = Finite 1, py = Finite 2\<rparr>], color = ''#FFFFFF'', width = 10, tool = Eraser\<rparr>"
proof -
  have ok: "ctx_ok fresh_context" by (simp add: ctx_ok_def fresh_context_def)
  have len: "2 \<le> length (points demo_brush)" by (simp add: demo_brush_def)
  have br: "tool demo_brush = Brush" by (simp add: demo_brush_def)
  have cfg: "currentWidth (demo_session\<lparr>currentTool := Eraser\<rparr>) = 5"
    by (simp add: demo_session_def initial_def)
  have pw: "painted_with demo_brush (width demo_brush * 1.5) 0.7 ''source-over'' =
       \<lparr>p_strokeStyle = ''#00FF00'', p_lineWidth = 6, p_lineCap = ''round'',
                 p_lineJoin = ''round'', p_globalAlpha = 0.7, p_composite = ''source-over'',
                 p_path = [MoveTo (Finite 0) (Finite 0), LineTo (Finite 50) (Finite 50), LineTo (Finite 60) (Finite 10)]\<rparr>"
    by (simp add: painted_with_def demo_brush_def stroke_path_def)
  have bm: "bitmap fresh_context = []" by (simp add: fresh_context_def)
  from tool_modifiers [OF ok len, where s = "demo_session\<lparr>currentTool := Eraser\<rparr>"
      and p = "\<lparr>px = Finite 1, py = Finite 2\<rparr>"] ok len br cfg pw bm
  show ?thesis by simp
qed

subsection \<open>The render pass\<close>

text \<open>
  Claim C6. On a mounted canvas whose context is between strokes, one render pass
  leaves on the surface exactly: the background fill, then what each stroke of the
  log paints, in log order, then what the active stroke paints; and it delivers the
  image of that surface. Neither depends on what the surface or the context's
  attributes held before, so two passes over the same log and active stroke on
  canvases of the same size give the same surface and the same image.
\<close>

theorem render_pass_pure:
  assumes "session_ok s" and "session_ok t"
    and "canvasRef s = Some cv" and "canvasRef t = Some cv'"
    and "cv_width cv' = cv_width cv" and "cv_height cv' = cv_height cv"
    and "strokes t = strokes s" and "currentStroke t = currentStroke s"
  shows "surface (fst (redrawCanvas s)) =
           Fill ''#FFFFFF'' 1 ''source-over'' 0 0 (cv_width cv) (cv_height cv)
             # concat (map spec_stroke_paint (strokes s))
             @ (case currentStroke s of None \<Rightarrow> [] | Some st \<Rightarrow> spec_stroke_paint st)
    \<and> snd (redrawCanvas s) =
        [ImageData (PNG (cv_width cv) (cv_height cv) (surface (fst (redrawCanvas s))))]
    \<and> surface (fst (redrawCanvas t)) = surface (fst (redrawCanvas s))
    \<and> snd (redrawCanvas t) = snd (redrawCanvas s)"
proof -
  have s: "surface (fst (redrawCanvas s))
           = spec_render_pass (cv_width cv) (cv_height cv) (strokes s) (currentStroke s)"
    using assms(1,3) by (rule redrawCanvas_surface)
  have t: "surface (fst (redrawCanvas t))
           = spec_render_pass (cv_width cv) (cv_height cv) (strokes s) (currentStroke s)"
    using redrawCanvas_surface [OF assms(2,4)] assms(5-8) by simp
  have os: "snd (redrawCanvas s) = [ImageData (rendering s)]"
    using assms(1) by (rule redrawCanvas_out)
  have ot: "snd (redrawCanvas t) = [ImageData (rendering t)]"
    using assms(2) by (rule redrawCanvas_out)
  have rs: "rendering s = PNG (cv_width cv) (cv_height cv)
      (spec_render_pass (cv_width cv) (cv_height cv) (strokes s) (currentStroke s))"
    using assms(3) by (simp add: rendering_def)
  have rt: "rendering t = rendering s"
    using assms(3-8) by (simp add: rendering_def)
  show ?thesis
    unfolding s t os ot rs rt by (simp add: spec_render_pass_def)
qed

theorem render_pass_pure_witness:
  "session_ok (demo_session\<lparr>strokes := [demo_line], currentStroke := Some demo_brush\<rparr>)
   \<and> session_ok (stale_session\<lparr>strokes := [demo_line], currentStroke := Some demo_brush\<rparr>)
   \<and> surface (fst (redrawCanvas
         (demo_session\<lparr>strokes := [demo_line], currentStroke := Some demo_brush\<rparr>))) =
       [Fill ''#FFFFFF'' 1 ''source-over'' 0 0 800 600,
        Stroked (painted_with demo_line 5 1 ''source-over''),
        Stroked (painted_with demo_brush 6 0.7 ''source-over'')]
   \<and> snd (redrawCanvas (stale_session\<lparr>strokes := [demo_line], currentStroke := Some demo_brush\<rparr>))
       = snd (redrawCanvas (demo_session\<lparr>strokes := [demo_line], currentStroke := Some demo_brush\<rparr>))"
proof -
  let ?s = "demo_session\<lparr>strokes := [demo_line], currentStroke := Some demo_brush\<rparr>"
  let ?t = "stale_session\<lparr>strokes := [demo_line], currentStroke := Some demo_brush\<rparr>"
  let ?cv' = "demo_canvas\<lparr>rect_left := 0,
          ctx2d := Some (fresh_context\<lparr>strokeStyle := ''#123456'', lineWidth := 9,
                     path := [MoveTo (Finite 1) (Finite 1)],
                     bitmap := [Fill ''#000000'' 1 ''source-over'' 0 0 10 10]\<rparr>)\<rparr>"
  have oks: "session_ok ?s"
    by (simp add: session_ok_def demo_session_def initial_def demo_canvas_def ctx_ok_def
        fresh_context_def)
  have okt: "session_ok ?t"
    by (simp add: session_ok_def stale_session_def demo_session_def initial_def demo_canvas_def
        ctx_ok_def fresh_context_def)
  have cs: "canvasRef ?s = Some demo_canvas" by (simp add: demo_session_def initial_def)
  have ct: "canvasRef ?t = Some ?cv'" by (simp add: stale_session_def)
  have w: "cv_width ?cv' = cv_width demo_canvas" and h: "cv_height ?cv' = cv_height demo_canvas"
    by simp_all
  have st: "strokes ?t = strokes ?s" and cu: "currentStroke ?t = currentStroke ?s"
    by simp_all
  have sz: "cv_width demo_canvas = 800" "cv_height demo_canvas = 600"
    by (simp_all add: demo_canvas_def)
  have pl: "spec_stroke_paint demo_line = [Stroked (painted_with demo_line 5 1 ''source-over'')]"
    by (simp add: spec_stroke_paint_def painted_with_def demo_line_def spec_multiplier_def
        spec_opacity_def spec_blend_def)
  have pb: "spec_stroke_paint demo_brush = [Stroked (painted_with demo_brush 6 0.7 ''source-over'')]"
    by (simp add: spec_stroke_paint_def painted_with_def demo_brush_def spec_multiplier_def
        spec_opacity_def spec_blend_def)
  from render_pass_pure [OF oks okt cs ct w h st cu] oks okt sz pl pb
  show ?thesis by simp
qed

subsection \<open>Clear\<close>

lemma clearCanvas_eq:
  assumes "session_ok s" and "canvasRef s = Some cv"
  shows "\<exists>ctx. ctx_ok ctx \<and> clearCanvas s =
     (s\<lparr>strokes := [], currentStroke := None, hasContent := False,
        canvasRef := Some (cv\<lparr>ctx2d := Some ctx\<rparr>)\<rparr>,
      [DrawingChange False, ImageData (blank_image cv)])"
proof -
  from assms obtain ctx where c: "ctx2d cv = Some ctx" "ctx_ok ctx"
    by (auto elim: session_okE)
  let ?bg = "ctx\<lparr>fillStyle := ''#FFFFFF'',
                 bitmap := [Fill ''#FFFFFF'' 1 ''source-over'' 0 0 (cv_width cv) (cv_height cv)]\<rparr>"
  have ok: "ctx_ok ?bg" using c(2) by (simp add: ctx_ok_def)
  have "clearCanvas s =
     (s\<lparr>strokes := [], currentStroke := None, hasContent := False,
        canvasRef := Some (cv\<lparr>ctx2d := Some ?bg\<rparr>)\<rparr>,
      [DrawingChange False, ImageData (blank_image cv)])"
    using assms(2) c
    by (simp add: clearCanvas_def Let_def background_fill toDataURL_def blank_image_def)
  with ok show ?thesis by blast
qed

lemma mount_out: "snd (mount cv) = [ImageData (blank_image cv)]"
proof -
  let ?s = "initial (cv\<lparr>ctx2d := Some fresh_context\<rparr>)"
  have ok: "session_ok ?s"
    by (simp add: session_ok_def initial_def ctx_ok_def fresh_context_def)
  have "rendering ?s = blank_image cv"
    by (simp add: rendering_def initial_def blank_image_def spec_render_pass_def)
  with redrawCanvas_out [OF ok] show ?thesis by (simp add: mount_def)
qed

lemma mount_ok: "session_ok (fst (mount cv))"
  unfolding mount_def
  by (rule redrawCanvas_ok) (simp add: session_ok_def initial_def ctx_ok_def fresh_context_def)

text \<open>
  Claim C5. On a mounted canvas whose context is between strokes, whatever the log and
  the active stroke are, \<open>clear()\<close> leaves the log empty and no active stroke, stores
  and emits content presence false, and emits the image of a surface holding the
  background fill only. That is the image delivered when the component is first
  mounted on a canvas of this size, and the redraw that follows the clear delivers it
  once more.
\<close>

theorem clear_resets:
  assumes "session_ok s" and "canvasRef s = Some cv"
  shows "strokes (fst (clearCanvas s)) = []
    \<and> currentStroke (fst (clearCanvas s)) = None
    \<and> hasContent (fst (clearCanvas s)) = False
    \<and> snd (clearCanvas s) = DrawingChange False # snd (mount cv)
    \<and> snd (mount cv) =
        [ImageData (PNG (cv_width cv) (cv_height cv)
           [Fill ''#FFFFFF'' 1 ''source-over'' 0 0 (cv_width cv) (cv_height cv)])]
    \<and> snd (dispatch s ClickClear) = DrawingChange False # snd (mount cv) @ snd (mount cv)
    \<and> strokes (fst (dispatch s ClickClear)) = []
    \<and> currentStroke (fst (dispatch s ClickClear)) = None"
proof -
  from clearCanvas_eq [OF assms] obtain ctx where ctx: "ctx_ok ctx"
    and cl: "clearCanvas s =
     (s\<lparr>strokes := [], currentStroke := None, hasContent := False,
        canvasRef := Some (cv\<lparr>ctx2d := Some ctx\<rparr>)\<rparr>,
      [DrawingChange False, ImageData (blank_image cv)])"
    by blast
  let ?s1 = "s\<lparr>strokes := [], currentStroke := None, hasContent := False,
        canvasRef := Some (cv\<lparr>ctx2d := Some ctx\<rparr>)\<rparr>"
  have ok1: "session_ok ?s1" using ctx by (simp add: session_ok_def)
  have r1: "rendering ?s1 = blank_image cv"
    by (simp add: rendering_def blank_image_def spec_render_pass_def)
  have d: "dispatch s ClickClear =
      (fst (redrawCanvas ?s1), [DrawingChange False, ImageData (blank_image cv)] @ snd (redrawCanvas ?s1))"
    by (simp add: dispatch_def cl split_beta)
  have out: "snd (dispatch s ClickClear)
      = [DrawingChange False, ImageData (blank_image cv), ImageData (blank_image cv)]"
    unfolding d using redrawCanvas_out [OF ok1] r1 by simp
  have f: "strokes (fst (dispatch s ClickClear)) = []"
     "currentStroke (fst (dispatch s ClickClear)) = None"
    unfolding d by (simp_all add: redrawCanvas_fields)
  show ?thesis
    using out f by (simp add: cl mount_out) (simp add: blank_image_def)
qed

theorem clear_resets_witness:
  "session_ok (stale_session\<lparr>strokes := [demo_line, demo_dot], currentStroke := Some demo_brush\<rparr>)
   \<and> strokes (fst (clearCanvas
         (stale_session\<lparr>strokes := [demo_line, demo_dot], currentStroke := Some demo_brush\<rparr>))) = []
   \<and> currentStroke (fst (clearCanvas
         (stale_session\<lparr>strokes := [demo_line, demo_dot], currentStroke := Some demo_brush\<rparr>))) = None
   \<and> snd (clearCanvas
         (stale_session\<lparr>strokes := [demo_line, demo_dot], currentStroke := Some demo_brush\<rparr>))
       = [DrawingChange False,
          ImageData (PNG 800 600 [Fill ''#FFFFFF'' 1 ''source-over'' 0 0 800 600])]
   \<and> snd (mount demo_canvas)
       = [ImageData (PNG 800 600 [Fill ''#FFFFFF'' 1 ''source-over'' 0 0 800 600])]"
proof -
  let ?t = "stale_session\<lparr>strokes := [demo_line, demo_dot], currentStroke := Some demo_brush\<rparr>"
  let ?cv' = "demo_canvas\<lparr>rect_left := 0,
          ctx2d := Some (fresh_context\<lparr>strokeStyle := ''#123456'', lineWidth := 9,
                     path := [MoveTo (Finite 1) (Finite 1)],
                     bitmap := [Fill ''#000000'' 1 ''source-over'' 0 0 10 10]\<rparr>)\<rparr>"
  have okt: "session_ok ?t"
    by (simp add: session_ok_def stale_session_def demo_session_def initial_def demo_canvas_def
        ctx_ok_def fresh_context_def)
  have ct: "canvasRef ?t = Some ?cv'" by (simp add: stale_session_def)
  have sz: "cv_width ?cv' = 800" "cv_height ?cv' = 600"
    by (simp_all add: demo_canvas_def)
  have m: "snd (mount ?cv') = snd (mount demo_canvas)"
    by (simp add: mount_out blank_image_def)
  from clear_resets [OF okt ct] okt show ?thesis
    unfolding m sz by simp
qed

subsection \<open>A start while a stroke is active\<close>

lemma startDrawing_forgets:
  "startDrawing (s\<lparr>currentStroke := old\<rparr>) p = startDrawing s p"
  by (simp add: startDrawing_def Let_def)

text \<open>
  Claim C10. A mouse-down or a touch-start (with a touch point) that arrives while a
  stroke is active raises no error and leads to the very state and host calls it
  leads to when no stroke is active: the active stroke is a fresh one-point stroke
  with the current configuration, the log is as before, and every later sequence of
  events runs as if the replaced stroke had never existed. That there is at most one
  active stroke is the type of \<open>currentStroke\<close>.
\<close>

theorem restart_discards_active:
  "handler (s\<lparr>currentStroke := Some old\<rparr>) (MouseDown e)
     = Inr (startDrawing s (getMousePos (canvasRef s) e), [])
   \<and> handler (s\<lparr>currentStroke := Some old\<rparr>) (TouchStart \<lparr>touches = t # ts\<rparr>)
     = Inr (startDrawing s (getMousePos (canvasRef s) t), [])
   \<and> currentStroke (startDrawing s p) =
       Some \<lparr>points = [p],
             color = (if currentTool s = Eraser then ''#FFFFFF'' else currentColor s),
             width = (if currentTool s = Eraser then currentWidth s * 2 else currentWidth s),
             tool = currentTool s\<rparr>
   \<and> strokes (startDrawing s p) = strokes s
   \<and> strokes (fst (dispatch (s\<lparr>currentStroke := Some old\<rparr>) (MouseDown e))) = strokes s
   \<and> run (s\<lparr>currentStroke := Some old\<rparr>) (MouseDown e # evs)
       = run (s\<lparr>currentStroke := None\<rparr>) (MouseDown e # evs)
   \<and> run (s\<lparr>currentStroke := Some old\<rparr>) (TouchStart \<lparr>touches = t # ts\<rparr> # evs)
       = run (s\<lparr>currentStroke := None\<rparr>) (TouchStart \<lparr>touches = t # ts\<rparr> # evs)"
proof -
  have touch: "getTouchPos ref \<lparr>touches = t # ts\<rparr> = Inr (getMousePos ref t)" for ref
    by (simp add: getTouchPos_def getMousePos_def split: option.splits)
  have hm: "handler (s\<lparr>currentStroke := x\<rparr>) (MouseDown e)
     = Inr (startDrawing s (getMousePos (canvasRef s) e), [])" for x
    by (simp add: handleMouseDown_def startDrawing_forgets)
  have ht: "handler (s\<lparr>currentStroke := x\<rparr>) (TouchStart \<lparr>touches = t # ts\<rparr>)
     = Inr (startDrawing s (getMousePos (canvasRef s) t), [])" for x
    by (simp add: handleTouchStart_def touch startDrawing_forgets)
  have dm: "dispatch (s\<lparr>currentStroke := x\<rparr>) (MouseDown e)
      = redrawCanvas (startDrawing s (getMousePos (canvasRef s) e))" for x
    unfolding dispatch_def hm by (simp add: split_beta)
  have dt: "dispatch (s\<lparr>currentStroke := x\<rparr>) (TouchStart \<lparr>touches = t # ts\<rparr>)
      = redrawCanvas (startDrawing s (getMousePos (canvasRef s) t))" for x
    unfolding dispatch_def ht by (simp add: split_beta)
  have cur: "currentStroke (startDrawing s p) =
       Some \<lparr>points = [p],
             color = (if currentTool s = Eraser then ''#FFFFFF'' else currentColor s),
             width = (if currentTool s = Eraser then currentWidth s * 2 else currentWidth s),
             tool = currentTool s\<rparr>"
    by (simp add: startDrawing_def Let_def)
  have st: "strokes (startDrawing s q) = strokes s" for q
    by (simp add: startDrawing_def Let_def)
  have sd: "strokes (fst (dispatch (s\<lparr>currentStroke := Some old\<rparr>) (MouseDown e))) = strokes s"
    unfolding dm by (simp add: redrawCanvas_fields st)
  have rm: "run (s\<lparr>currentStroke := Some old\<rparr>) (MouseDown e # evs)
       = run (s\<lparr>currentStroke := None\<rparr>) (MouseDown e # evs)"
    unfolding run.simps dm ..
  have rt: "run (s\<lparr>currentStroke := Some old\<rparr>) (TouchStart \<lparr>touches = t # ts\<rparr> # evs)
       = run (s\<lparr>currentStroke := None\<rparr>) (TouchStart \<lparr>touches = t # ts\<rparr> # evs)"
    unfolding run.simps dt ..
  from hm [of "Some old"] ht [of "Some old"] cur st [of p] sd rm rt show ?thesis by blast
qed

theorem restart_discards_active_witness:
  "handler (demo_session\<lparr>isDrawing := True, currentStroke := Some demo_brush\<rparr>)
      (MouseDown \<lparr>clientX = 60, clientY = 70\<rparr>)
     = Inr (demo_session\<lparr>isDrawing := True, currentStroke :=
              Some \<lparr>points = [\<lparr>px = Finite 100, py = Finite 100\<rparr>], color = ''#000000'', width = 5,
                    tool = Pen\<rparr>\<rparr>, [])
   \<and> run (demo_session\<lparr>isDrawing := True, currentStroke := Some demo_brush\<rparr>)
        [MouseDown \<lparr>clientX = 60, clientY = 70\<rparr>, MouseUp]
     = run (demo_session\<lparr>isDrawing := True, currentStroke := None\<rparr>)
        [MouseDown \<lparr>clientX = 60, clientY = 70\<rparr>, MouseUp]"
proof -
  have p: "getMousePos (canvasRef (demo_session\<lparr>isDrawing := True\<rparr>)) \<lparr>clientX = 60, clientY = 70\<rparr>
      = \<lparr>px = Finite 100, py = Finite 100\<rparr>"
    by (simp add: getMousePos_def demo_session_def initial_def demo_canvas_def
        js_div_def js_mul_def)
  have sd: "startDrawing (demo_session\<lparr>isDrawing := True\<rparr>) \<lparr>px = Finite 100, py = Finite 100\<rparr>
      = demo_session\<lparr>isDrawing := True, currentStroke :=
              Some \<lparr>points = [\<lparr>px = Finite 100, py = Finite 100\<rparr>], color = ''#000000'', width = 5,
                    tool = Pen\<rparr>\<rparr>"
    by (simp add: startDrawing_def demo_session_def initial_def)
  from restart_discards_active [where s = "demo_session\<lparr>isDrawing := True\<rparr>"
      and old = demo_brush and e = "\<lparr>clientX = 60, clientY = 70\<rparr>" and evs = "[MouseUp]"]
  show ?thesis unfolding p sd by blast
qed

subsection \<open>Content presence\<close>

text \<open>
  Claim C1 does not hold as stated. \<open>stopDrawing\<close> tests the log as it was before the
  completed stroke is appended, so a first stroke of a single point (a press and
  release without a move) emits false although the log is then non-empty. And
  \<open>undoLastStroke\<close> does not look at the active stroke: an undo that empties the log
  while a stroke of two points is being drawn emits false.
\<close>

theorem content_presence_counterexample:
  "snd (stopDrawing (startDrawing demo_session \<lparr>px = Finite 100, py = Finite 100\<rparr>)) = [DrawingChange False]
   \<and> spec_content_presence (fst (stopDrawing (startDrawing demo_session \<lparr>px = Finite 100, py = Finite 100\<rparr>)))
   \<and> snd (undoLastStroke
          (draw (startDrawing (demo_session\<lparr>strokes := [demo_line]\<rparr>) \<lparr>px = Finite 0, py = Finite 0\<rparr>)
             \<lparr>px = Finite 50, py = Finite 50\<rparr>)) = [DrawingChange False]
   \<and> spec_content_presence (fst (undoLastStroke
          (draw (startDrawing (demo_session\<lparr>strokes := [demo_line]\<rparr>) \<lparr>px = Finite 0, py = Finite 0\<rparr>)
             \<lparr>px = Finite 50, py = Finite 50\<rparr>)))"
  by (simp add: stopDrawing_def startDrawing_def draw_def undoLastStroke_def Let_def
      demo_session_def initial_def spec_content_presence_def)

text \<open>
  Claim C1, amended. Completing the active stroke emits: the log was non-empty before
  the completion, or the completed stroke has more than one point; that is the
  formula of the claim on the state before the transition. An undo on a non-empty
  log emits: the log is non-empty after the undo. Clear emits false, and the claimed
  formula is false after it. The emitted value is the claimed formula on the state
  after the transition whenever a completion emits true, and on every undo during
  which no stroke of more than one point is active.
\<close>

theorem content_presence_emitted:
  "(isDrawing s \<and> currentStroke s = Some cur \<longrightarrow>
      snd (stopDrawing s) = [DrawingChange (strokes s \<noteq> [] \<or> length (points cur) > 1)])
   \<and> (isDrawing s \<and> currentStroke s = Some cur \<longrightarrow>
      snd (stopDrawing s) = [DrawingChange (spec_content_presence s)])
   \<and> (strokes s \<noteq> [] \<longrightarrow>
      snd (undoLastStroke s) = [DrawingChange (strokes (fst (undoLastStroke s)) \<noteq> [])])
   \<and> take 1 (snd (clearCanvas s)) = [DrawingChange False]
   \<and> \<not> spec_content_presence (fst (clearCanvas s))
   \<and> (isDrawing s \<and> currentStroke s = Some cur \<and> (strokes s \<noteq> [] \<or> length (points cur) > 1) \<longrightarrow>
      snd (stopDrawing s) = [DrawingChange (spec_content_presence (fst (stopDrawing s)))])
   \<and> (strokes s \<noteq> [] \<and> (\<forall>a. currentStroke s = Some a \<longrightarrow> length (points a) \<le> 1) \<longrightarrow>
      snd (undoLastStroke s) = [DrawingChange (spec_content_presence (fst (undoLastStroke s)))])"
proof -
  have stop: "isDrawing s \<and> currentStroke s = Some cur \<longrightarrow>
      snd (stopDrawing s) = [DrawingChange (strokes s \<noteq> [] \<or> length (points cur) > 1)]"
    by (simp add: stopDrawing_def Let_def)
  have pre: "isDrawing s \<and> currentStroke s = Some cur \<longrightarrow>
      snd (stopDrawing s) = [DrawingChange (spec_content_presence s)]"
    by (simp add: stopDrawing_def Let_def spec_content_presence_def)
  have nonempty: "butlast xs \<noteq> [] \<longleftrightarrow> 1 < length xs" for xs :: "stroke list"
    by (cases xs rule: rev_cases) auto
  have undo: "strokes s \<noteq> [] \<longrightarrow>
      snd (undoLastStroke s) = [DrawingChange (strokes (fst (undoLastStroke s)) \<noteq> [])]"
    by (simp add: undoLastStroke_def Let_def nonempty)
  have clear1: "take 1 (snd (clearCanvas s)) = [DrawingChange False]"
    by (simp add: clearCanvas_def Let_def split: option.splits)
  have clear2: "\<not> spec_content_presence (fst (clearCanvas s))"
    by (simp add: clearCanvas_def Let_def spec_content_presence_def split: option.splits)
  have stop2: "isDrawing s \<and> currentStroke s = Some cur
      \<and> (strokes s \<noteq> [] \<or> length (points cur) > 1) \<longrightarrow>
      snd (stopDrawing s) = [DrawingChange (spec_content_presence (fst (stopDrawing s)))]"
    by (auto simp: stopDrawing_def Let_def spec_content_presence_def)
  have undo2: "strokes s \<noteq> [] \<and> (\<forall>a. currentStroke s = Some a \<longrightarrow> length (points a) \<le> 1) \<longrightarrow>
      snd (undoLastStroke s) = [DrawingChange (spec_content_presence (fst (undoLastStroke s)))]"
    by (cases "currentStroke s")
       (auto simp: undoLastStroke_def Let_def spec_content_presence_def nonempty)
  from stop pre undo clear1 clear2 stop2 undo2 show ?thesis by blast
qed

theorem content_presence_emitted_witness:
  "snd (stopDrawing (demo_session\<lparr>isDrawing := True, currentStroke := Some demo_dot\<rparr>))
     = [DrawingChange False]
   \<and> snd (stopDrawing (demo_session\<lparr>isDrawing := True, currentStroke := Some demo_dot,
                                     strokes := [demo_dot]\<rparr>))
     = [DrawingChange True]
   \<and> snd (undoLastStroke (demo_session\<lparr>strokes := [demo_line, demo_dot]\<rparr>)) = [DrawingChange True]
   \<and> spec_content_presence (fst (undoLastStroke (demo_session\<lparr>strokes := [demo_line, demo_dot]\<rparr>)))"
proof -
  let ?s1 = "demo_session\<lparr>isDrawing := True, currentStroke := Some demo_dot\<rparr>"
  let ?s2 = "demo_session\<lparr>isDrawing := True, currentStroke := Some demo_dot,
                                     strokes := [demo_dot]\<rparr>"
  let ?s3 = "demo_session\<lparr>strokes := [demo_line, demo_dot]\<rparr>"
  have a: "isDrawing ?s1 \<and> currentStroke ?s1 = Some demo_dot" by simp
  have a': "strokes ?s1 = []" "\<not> length (points demo_dot) > 1"
    by (simp_all add: demo_session_def initial_def demo_dot_def)
  have b: "isDrawing ?s2 \<and> currentStroke ?s2 = Some demo_dot" by simp
  have b': "strokes ?s2 \<noteq> []" by simp
  have c: "strokes ?s3 \<noteq> [] \<and> (\<forall>a. currentStroke ?s3 = Some a \<longrightarrow> length (points a) \<le> 1)"
    by (simp add: demo_session_def initial_def)
  have d: "strokes (fst (undoLastStroke ?s3)) \<noteq> []"
    by (simp add: undoLastStroke_def Let_def)
  from content_presence_emitted [where s = ?s1 and cur = demo_dot] a
  have "snd (stopDrawing ?s1) = [DrawingChange (strokes ?s1 \<noteq> [] \<or> length (points demo_dot) > 1)]"
    by blast
  with a' have w1: "snd (stopDrawing ?s1) = [DrawingChange False]" by simp
  from content_presence_emitted [where s = ?s2 and cur = demo_dot] b
  have "snd (stopDrawing ?s2) = [DrawingChange (strokes ?s2 \<noteq> [] \<or> length (points demo_dot) > 1)]"
    by blast
  with b' have w2: "snd (stopDrawing ?s2) = [DrawingChange True]" by simp
  from content_presence_emitted [where s = ?s3] c
  have "snd (undoLastStroke ?s3) = [DrawingChange (strokes (fst (undoLastStroke ?s3)) \<noteq> [])]"
    and e: "snd (undoLastStroke ?s3) = [DrawingChange (spec_content_presence (fst (undoLastStroke ?s3)))]"
    by blast+
  with d have w3: "snd (undoLastStroke ?s3) = [DrawingChange True]" by simp
  from w3 e have w4: "spec_content_presence (fst (undoLastStroke ?s3))" by simp
  from w1 w2 w3 w4 show ?thesis by blast
qed

subsection \<open>Touch events without a touch point\<close>

text \<open>
  Claim C2 does not hold as stated. On the mounted canvas a touch-start without a
  touch point is not ignored silently: reading \<open>clientX\<close> of \<open>touches[0]\<close> throws out
  of the handler. With a null canvas reference nothing is thrown, but the origin is
  recorded as the first point of a new stroke.
\<close>

theorem empty_touch_counterexample:
  "handleTouchStart demo_session \<lparr>touches = []\<rparr> = Inl TypeError
   \<and> dispatch demo_session (TouchMove \<lparr>touches = []\<rparr>) = (demo_session, [Uncaught TypeError])
   \<and> currentStroke (fst (dispatch (demo_session\<lparr>canvasRef := None\<rparr>) (TouchStart \<lparr>touches = []\<rparr>)))
       = Some \<lparr>points = [\<lparr>px = Finite 0, py = Finite 0\<rparr>], color = ''#000000'', width = 5, tool = Pen\<rparr>"
  by (simp add: handleTouchStart_def handleTouchMove_def getTouchPos_def dispatch_def
      demo_session_def initial_def startDrawing_def redrawCanvas_def Let_def)

text \<open>
  Claim C2, amended. With the canvas mounted, a touch-start or touch-move without a
  touch point throws a \<open>TypeError\<close> out of the handler; no point is recorded and the
  session is unchanged. With a null canvas reference the mapper returns the origin
  before it reads the touch list: nothing is thrown, and the origin goes where a
  mapped point would (the first point of a new stroke, or appended to the active
  one). A touch-end does not read the touch list and never throws.
\<close>

theorem empty_touch_event:
  "(canvasRef s = Some cv \<longrightarrow>
      getTouchPos (canvasRef s) \<lparr>touches = []\<rparr> = Inl TypeError
      \<and> handleTouchStart s \<lparr>touches = []\<rparr> = Inl TypeError
      \<and> handleTouchMove s \<lparr>touches = []\<rparr> = Inl TypeError
      \<and> dispatch s (TouchStart \<lparr>touches = []\<rparr>) = (s, [Uncaught TypeError])
      \<and> dispatch s (TouchMove \<lparr>touches = []\<rparr>) = (s, [Uncaught TypeError]))
   \<and> (canvasRef s = None \<longrightarrow>
      handleTouchStart s \<lparr>touches = []\<rparr> = Inr (startDrawing s \<lparr>px = Finite 0, py = Finite 0\<rparr>, [])
      \<and> handleTouchMove s \<lparr>touches = []\<rparr> = Inr (draw s \<lparr>px = Finite 0, py = Finite 0\<rparr>, []))
   \<and> handler s TouchEnd = Inr (stopDrawing s)"
  by (simp add: getTouchPos_def handleTouchStart_def handleTouchMove_def handleTouchEnd_def
      dispatch_def)

theorem empty_touch_event_witness:
  "canvasRef stale_session \<noteq> None
   \<and> dispatch stale_session (TouchStart \<lparr>touches = []\<rparr>) = (stale_session, [Uncaught TypeError])
   \<and> dispatch stale_session (TouchMove \<lparr>touches = []\<rparr>) = (stale_session, [Uncaught TypeError])
   \<and> handleTouchMove (demo_session\<lparr>canvasRef := None\<rparr>) \<lparr>touches = []\<rparr>
       = Inr (draw (demo_session\<lparr>canvasRef := None\<rparr>) \<lparr>px = Finite 0, py = Finite 0\<rparr>, [])"
proof -
  have m: "canvasRef stale_session =
      Some (demo_canvas\<lparr>rect_left := 0,
          ctx2d := Some (fresh_context\<lparr>strokeStyle := ''#123456'', lineWidth := 9,
                     path := [MoveTo (Finite 1) (Finite 1)],
                     bitmap := [Fill ''#000000'' 1 ''source-over'' 0 0 10 10]\<rparr>)\<rparr>)"
    by (simp add: stale_session_def)
  have u: "canvasRef (demo_session\<lparr>canvasRef := None\<rparr>) = None" by simp
  from empty_touch_event [where s = stale_session, THEN conjunct1, rule_format, OF m]
       empty_touch_event [where s = "demo_session\<lparr>canvasRef := None\<rparr>" and cv = demo_canvas,
         THEN conjunct2, THEN conjunct1, rule_format, OF u]
       m
  show ?thesis by simp
qed

subsection \<open>Sequences of events\<close>

lemma run_append:
  "run s (xs @ ys) = (fst (run (fst (run s xs)) ys), snd (run s xs) @ snd (run (fst (run s xs)) ys))"
  by (induction xs arbitrary: s) (simp_all add: split_beta Let_def)

lemma last_image_append:
  "last_image (xs @ ys) = (case last_image ys of Some i \<Rightarrow> Some i | None \<Rightarrow> last_image xs)"
  by (induction xs) (simp_all split: option.splits)

lemma getMousePos_geometry:
  assumes "geometry s = geometry t"
  shows "getMousePos (canvasRef s) e = getMousePos (canvasRef t) e"
proof (cases "canvasRef s")
  case None
  with geometry_None [OF assms] show ?thesis by simp
next
  case (Some a)
  with geometry_None [OF assms] obtain b where b: "canvasRef t = Some b" by auto
  from assms Some b have eq: "a\<lparr>ctx2d := None\<rparr> = b\<lparr>ctx2d := None\<rparr>"
    by (simp add: geometry_def)
  from arg_cong [OF eq, of cv_width] arg_cong [OF eq, of cv_height]
    arg_cong [OF eq, of rect_left] arg_cong [OF eq, of rect_top]
    arg_cong [OF eq, of rect_width] arg_cong [OF eq, of rect_height]
  show ?thesis by (simp add: Some b getMousePos_def)
qed

text \<open>What a redraw after a handler leaves and emits.\<close>

lemma redraw_after:
  assumes "session_ok x"
  shows "session_ok (fst (redrawCanvas x))"
    and "geometry (fst (redrawCanvas x)) = geometry x"
    and "rendering (fst (redrawCanvas x)) = rendering x"
    and "snd (redrawCanvas x) = [ImageData (rendering x)]"
proof -
  show "session_ok (fst (redrawCanvas x))" using assms by (rule redrawCanvas_ok)
  show g: "geometry (fst (redrawCanvas x)) = geometry x" by (rule redrawCanvas_frame)
  show "rendering (fst (redrawCanvas x)) = rendering x"
    using g by (rule rendering_cong) (simp_all add: redrawCanvas_fields)
  show "snd (redrawCanvas x) = [ImageData (rendering x)]" using assms by (rule redrawCanvas_out)
qed

lemma dispatch_MouseDown:
  "dispatch s (MouseDown e) = redrawCanvas (startDrawing s (getMousePos (canvasRef s) e))"
  by (simp add: dispatch_def handleMouseDown_def split_beta)

lemma dispatch_MouseMove:
  assumes "isDrawing s" and "currentStroke s = Some cur"
  shows "dispatch s (MouseMove e) =
     redrawCanvas (s\<lparr>currentStroke :=
        Some (cur\<lparr>points := points cur @ [getMousePos (canvasRef s) e]\<rparr>)\<rparr>)"
  using assms by (simp add: dispatch_def handleMouseMove_def draw_def Let_def split_beta)

lemma dispatch_MouseUp:
  assumes "isDrawing s" and "currentStroke s = Some cur"
  shows "\<exists>b. dispatch s MouseUp =
     (fst (redrawCanvas (s\<lparr>strokes := strokes s @ [cur], currentStroke := None,
                           isDrawing := False, hasContent := b\<rparr>)),
      DrawingChange b #
      snd (redrawCanvas (s\<lparr>strokes := strokes s @ [cur], currentStroke := None,
                           isDrawing := False, hasContent := b\<rparr>)))"
  using assms
  by (simp add: dispatch_def handleMouseUp_def stopDrawing_def Let_def split_beta)

lemma dispatch_ClickUndo:
  assumes "strokes s \<noteq> []"
  shows "\<exists>b. dispatch s ClickUndo =
     (fst (redrawCanvas (s\<lparr>strokes := butlast (strokes s), hasContent := b\<rparr>)),
      DrawingChange b # snd (redrawCanvas (s\<lparr>strokes := butlast (strokes s), hasContent := b\<rparr>)))"
  using assms by (simp add: dispatch_def undoLastStroke_def Let_def split_beta)

text \<open>The moves of a gesture: each appends its mapped point to the active stroke.\<close>

lemma run_moves:
  assumes "session_ok s" and "isDrawing s" and "currentStroke s = Some cur"
  shows "session_ok (fst (run s (map MouseMove es)))
    \<and> geometry (fst (run s (map MouseMove es))) = geometry s
    \<and> isDrawing (fst (run s (map MouseMove es)))
    \<and> currentStroke (fst (run s (map MouseMove es)))
        = Some (cur\<lparr>points := points cur @ map (getMousePos (canvasRef s)) es\<rparr>)
    \<and> strokes (fst (run s (map MouseMove es))) = strokes s"
  using assms
proof (induction es arbitrary: s cur)
  case Nil
  then show ?case by simp
next
  case (Cons e es)
  let ?cur1 = "cur\<lparr>points := points cur @ [getMousePos (canvasRef s) e]\<rparr>"
  let ?x = "s\<lparr>currentStroke := Some ?cur1\<rparr>"
  let ?s1 = "fst (redrawCanvas ?x)"
  have d: "dispatch s (MouseMove e) = redrawCanvas ?x"
    using Cons.prems(2,3) by (rule dispatch_MouseMove)
  have okx: "session_ok ?x" using Cons.prems(1) by (simp add: session_ok_def)
  have ok1: "session_ok ?s1" using okx by (rule redraw_after)
  have g1: "geometry ?s1 = geometry s"
    using redraw_after(2) [OF okx] by (simp add: geometry_def)
  have dr1: "isDrawing ?s1" using Cons.prems(2) by (simp add: redrawCanvas_fields)
  have cu1: "currentStroke ?s1 = Some ?cur1" by (simp add: redrawCanvas_fields)
  have st1: "strokes ?s1 = strokes s" by (simp add: redrawCanvas_fields)
  have mp: "getMousePos (canvasRef ?s1) = getMousePos (canvasRef s)"
    using getMousePos_geometry [OF g1] by (rule ext)
  from Cons.IH [OF ok1 dr1 cu1] g1 st1 mp
  have ih: "session_ok (fst (run ?s1 (map MouseMove es)))
    \<and> geometry (fst (run ?s1 (map MouseMove es))) = geometry s
    \<and> isDrawing (fst (run ?s1 (map MouseMove es)))
    \<and> currentStroke (fst (run ?s1 (map MouseMove es)))
        = Some (cur\<lparr>points := points cur @ map (getMousePos (canvasRef s)) (e # es)\<rparr>)
    \<and> strokes (fst (run ?s1 (map MouseMove es))) = strokes s"
    by simp
  have r: "fst (run s (map MouseMove (e # es))) = fst (run ?s1 (map MouseMove es))"
    by (simp add: d split_beta Let_def)
  show ?case unfolding r using ih .
qed

text \<open>The stroke a gesture captures: the mapped points with the configuration at the press.\<close>

lemma run_gesture:
  assumes "session_ok s"
  shows "session_ok (fst (run s (gesture e es)))
    \<and> geometry (fst (run s (gesture e es))) = geometry s
    \<and> currentStroke (fst (run s (gesture e es))) = None
    \<and> strokes (fst (run s (gesture e es))) = strokes s @ [captured s e es]
    \<and> last_image (snd (run s (gesture e es))) = Some (rendering (fst (run s (gesture e es))))"
proof -
  let ?p = "getMousePos (canvasRef s) e"
  let ?x0 = "startDrawing s ?p"
  let ?s0 = "fst (redrawCanvas ?x0)"
  let ?cur0 = "\<lparr>points = [?p],
             color = (if currentTool s = Eraser then ''#FFFFFF'' else currentColor s),
             width = (if currentTool s = Eraser then currentWidth s * 2 else currentWidth s),
             tool = currentTool s\<rparr>"
  have okx0: "session_ok ?x0" using assms by (simp add: session_ok_def startDrawing_def Let_def)
  have ok0: "session_ok ?s0" using okx0 by (rule redraw_after)
  have g0: "geometry ?s0 = geometry s"
    using redraw_after(2) [OF okx0] by (simp add: geometry_def startDrawing_def Let_def)
  have dr0: "isDrawing ?s0" by (simp add: redrawCanvas_fields startDrawing_def Let_def)
  have cu0: "currentStroke ?s0 = Some ?cur0"
    by (simp add: redrawCanvas_fields startDrawing_def Let_def)
  have st0: "strokes ?s0 = strokes s"
    by (simp add: redrawCanvas_fields startDrawing_def Let_def)
  have mp: "getMousePos (canvasRef ?s0) = getMousePos (canvasRef s)"
    using getMousePos_geometry [OF g0] by (rule ext)
  let ?s1 = "fst (run ?s0 (map MouseMove es))"
  from run_moves [OF ok0 dr0 cu0, of es] g0 st0 mp
  have m: "session_ok ?s1" "geometry ?s1 = geometry s" "isDrawing ?s1"
    "currentStroke ?s1 = Some (captured s e es)" "strokes ?s1 = strokes s"
    by (simp_all add: captured_def)
  from dispatch_MouseUp [OF m(3,4)] obtain b where
    up: "dispatch ?s1 MouseUp =
     (fst (redrawCanvas (?s1\<lparr>strokes := strokes ?s1 @ [captured s e es], currentStroke := None,
                           isDrawing := False, hasContent := b\<rparr>)),
      DrawingChange b #
      snd (redrawCanvas (?s1\<lparr>strokes := strokes ?s1 @ [captured s e es], currentStroke := None,
                           isDrawing := False, hasContent := b\<rparr>)))"
    by blast
  let ?x2 = "?s1\<lparr>strokes := strokes ?s1 @ [captured s e es], currentStroke := None,
                           isDrawing := False, hasContent := b\<rparr>"
  let ?s2 = "fst (redrawCanvas ?x2)"
  have okx2: "session_ok ?x2" using m(1) by (simp add: session_ok_def)
  have gx2: "geometry ?x2 = geometry s" using m(2) by (simp add: geometry_def)
  note r2 = redraw_after [OF okx2]
  have fin: "fst (run s (gesture e es)) = ?s2"
    by (simp add: gesture_def dispatch_MouseDown run_append up split_beta Let_def)
  have out: "snd (run s (gesture e es)) =
      snd (redrawCanvas ?x0) @ snd (run ?s0 (map MouseMove es))
        @ [DrawingChange b, ImageData (rendering ?x2)]"
    using r2(4)
    by (simp add: gesture_def dispatch_MouseDown run_append up split_beta Let_def)
  have li: "last_image (snd (run s (gesture e es))) = Some (rendering ?x2)"
    unfolding out by (simp add: last_image_append)
  show ?thesis
    unfolding fin li
    using r2(1) r2(2) r2(3) gx2 m(5) by (simp add: redrawCanvas_fields)
qed

subsection \<open>Undo and the exported image\<close>

text \<open>
  Claim C9. From any session on a mounted canvas whose context is between strokes:
  after drawing a stroke A, drawing a stroke B and one \<open>undo()\<close>, the log and the last
  image delivered to the host are the log and the last image delivered after drawing
  A alone. That image is the rendering of the log that ends with A.
\<close>

theorem undo_restores_image:
  assumes "session_ok s"
  shows "last_image (snd (run s (gesture e1 es1 @ gesture e2 es2 @ [ClickUndo])))
           = last_image (snd (run s (gesture e1 es1)))
    \<and> strokes (fst (run s (gesture e1 es1 @ gesture e2 es2 @ [ClickUndo])))
           = strokes (fst (run s (gesture e1 es1)))
    \<and> strokes (fst (run s (gesture e1 es1))) = strokes s @ [captured s e1 es1]
    \<and> last_image (snd (run s (gesture e1 es1))) = Some (rendering (fst (run s (gesture e1 es1))))"
proof -
  let ?s1 = "fst (run s (gesture e1 es1))"
  let ?s2 = "fst (run ?s1 (gesture e2 es2))"
  from run_gesture [OF assms, of e1 es1]
  have a: "session_ok ?s1" "currentStroke ?s1 = None"
    "strokes ?s1 = strokes s @ [captured s e1 es1]"
    "last_image (snd (run s (gesture e1 es1))) = Some (rendering ?s1)"
    by simp_all
  from run_gesture [OF a(1), of e2 es2]
  have b: "session_ok ?s2" "geometry ?s2 = geometry ?s1" "currentStroke ?s2 = None"
    "strokes ?s2 = strokes ?s1 @ [captured ?s1 e2 es2]"
    by simp_all
  have ne: "strokes ?s2 \<noteq> []" using b(4) by simp
  from dispatch_ClickUndo [OF ne] obtain c where
    u: "dispatch ?s2 ClickUndo =
     (fst (redrawCanvas (?s2\<lparr>strokes := butlast (strokes ?s2), hasContent := c\<rparr>)),
      DrawingChange c # snd (redrawCanvas (?s2\<lparr>strokes := butlast (strokes ?s2), hasContent := c\<rparr>)))"
    by blast
  let ?x3 = "?s2\<lparr>strokes := butlast (strokes ?s2), hasContent := c\<rparr>"
  have okx3: "session_ok ?x3" using b(1) by (simp add: session_ok_def)
  have g3: "geometry ?x3 = geometry ?s1" using b(2) by (simp add: geometry_def)
  have st3: "strokes ?x3 = strokes ?s1" using b(4) by simp
  have cu3: "currentStroke ?x3 = currentStroke ?s1" using b(3) a(2) by simp
  have r3: "rendering ?x3 = rendering ?s1" using g3 st3 cu3 by (rule rendering_cong)
  have fin: "fst (run s (gesture e1 es1 @ gesture e2 es2 @ [ClickUndo])) = fst (redrawCanvas ?x3)"
    by (simp add: run_append u split_beta Let_def)
  have out: "snd (run s (gesture e1 es1 @ gesture e2 es2 @ [ClickUndo])) =
      snd (run s (gesture e1 es1)) @ snd (run ?s1 (gesture e2 es2))
        @ [DrawingChange c, ImageData (rendering ?x3)]"
    using redraw_after(4) [OF okx3] by (simp add: run_append u split_beta Let_def)
  have li: "last_image (snd (run s (gesture e1 es1 @ gesture e2 es2 @ [ClickUndo])))
      = Some (rendering ?s1)"
    unfolding out r3 by (simp add: last_image_append)
  have st: "strokes (fst (run s (gesture e1 es1 @ gesture e2 es2 @ [ClickUndo]))) = strokes ?s1"
    unfolding fin using st3 by (simp add: redrawCanvas_fields)
  from li st a(3,4) show ?thesis by simp
qed

theorem undo_restores_image_witness:
  "session_ok demo_session
   \<and> last_image (snd (run demo_session
        (gesture \<lparr>clientX = 60, clientY = 70\<rparr> [\<lparr>clientX = 360, clientY = 70\<rparr>]
         @ gesture \<lparr>clientX = 10, clientY = 20\<rparr> [\<lparr>clientX = 35, clientY = 45\<rparr>]
         @ [ClickUndo])))
     = last_image (snd (run demo_session
        (gesture \<lparr>clientX = 60, clientY = 70\<rparr> [\<lparr>clientX = 360, clientY = 70\<rparr>])))
   \<and> strokes (fst (run demo_session
        (gesture \<lparr>clientX = 60, clientY = 70\<rparr> [\<lparr>clientX = 360, clientY = 70\<rparr>]
         @ gesture \<lparr>clientX = 10, clientY = 20\<rparr> [\<lparr>clientX = 35, clientY = 45\<rparr>]
         @ [ClickUndo])))
     = [\<lparr>points = [\<lparr>px = Finite 100, py = Finite 100\<rparr>, \<lparr>px = Finite 700, py = Finite 100\<rparr>],
         color = ''#000000'', width = 5, tool = Pen\<rparr>]"
proof -
  have ok: "session_ok demo_session"
    by (simp add: session_ok_def demo_session_def initial_def demo_canvas_def ctx_ok_def
        fresh_context_def)
  have cap: "strokes demo_session
      @ [captured demo_session \<lparr>clientX = 60, clientY = 70\<rparr> [\<lparr>clientX = 360, clientY = 70\<rparr>]]
     = [\<lparr>points = [\<lparr>px = Finite 100, py = Finite 100\<rparr>, \<lparr>px = Finite 700, py = Finite 100\<rparr>],
         color = ''#000000'', width = 5, tool = Pen\<rparr>]"
    by (simp add: captured_def getMousePos_def demo_session_def initial_def demo_canvas_def
        js_div_def js_mul_def)
  from undo_restores_image [OF ok, of "\<lparr>clientX = 60, clientY = 70\<rparr>"
      "[\<lparr>clientX = 360, clientY = 70\<rparr>]" "\<lparr>clientX = 10, clientY = 20\<rparr>"
      "[\<lparr>clientX = 35, clientY = 45\<rparr>]"] ok
  show ?thesis unfolding cap by simp
qed

subsection \<open>Reachable sessions\<close>

lemma handler_ok:
  assumes "session_ok s" and "handler s ev = Inr (s1, out1)"
  shows "session_ok s1"
proof (cases ev)
  case ClickClear
  from assms(1) obtain cv ctx where c: "canvasRef s = Some cv" "ctx2d cv = Some ctx" "ctx_ok ctx"
    by (rule session_okE)
  from clearCanvas_eq [OF assms(1) c(1)] assms(2) ClickClear show ?thesis
    by (auto simp: session_ok_def)
next
  case (TouchStart e)
  with assms show ?thesis
    by (auto simp: handleTouchStart_def session_ok_def startDrawing_def Let_def
        split: sum.splits)
next
  case (TouchMove e)
  with assms show ?thesis
    by (auto simp: handleTouchMove_def session_ok_def draw_def Let_def split: sum.splits)
qed (use assms in \<open>auto simp: handleMouseDown_def handleMouseMove_def handleMouseUp_def
      handleTouchEnd_def session_ok_def startDrawing_def draw_def stopDrawing_def
      undoLastStroke_def Let_def split: if_splits\<close>)

text \<open>
  Every session reached from the mount is on a mounted canvas whose context is between
  strokes.
\<close>

lemma dispatch_ok:
  assumes "session_ok s"
  shows "session_ok (fst (dispatch s ev))"
proof (cases "handler s ev")
  case (Inl err)
  with assms show ?thesis by (simp add: dispatch_def)
next
  case (Inr r)
  obtain s1 out1 where r: "r = (s1, out1)" by (cases r)
  from handler_ok [OF assms] Inr r have "session_ok s1" by simp
  with redrawCanvas_ok [of s1] Inr r show ?thesis
    by (simp add: dispatch_def split_beta)
qed

lemma run_ok: "session_ok s \<Longrightarrow> session_ok (fst (run s evs))"
  by (induction evs arbitrary: s) (simp_all add: split_beta Let_def dispatch_ok)

lemma reachable_ok: "session_ok (fst (run (fst (mount cv)) evs))"
  by (rule run_ok) (rule mount_ok)

end
